theory Spec2Isabelle
  imports Complex_Main "HOL-Library.Multiset"
begin

section \<open>Data model\<close>

text \<open>
  A cell of a table is a missing value, a string or a number. Python integers and floats
  are both read as exact rationals: the model keeps the numeric value of a cell, not its
  machine representation, and a mean is the exact quotient of sum and count.
\<close>

datatype cell = Null | Str string | Num rat

type_synonym series = "cell list"

text \<open>
  A DataFrame is the ordered list of its named columns. A well-formed frame has pairwise
  distinct column names and one entry per row in every column.
\<close>

type_synonym dataframe = "(string \<times> series) list"

definition columns :: "dataframe \<Rightarrow> string list" where
  "columns df = map fst df"

definition nrows :: "dataframe \<Rightarrow> nat" where
  "nrows df = (case df of [] \<Rightarrow> 0 | c # _ \<Rightarrow> length (snd c))"

definition wf_df :: "dataframe \<Rightarrow> bool" where
  "wf_df df = (distinct (columns df) \<and> list_all (\<lambda>c. length (snd c) = nrows df) df)"

text \<open>The exceptions the two scripts can meet; all of them are subclasses of \<open>Exception\<close>.\<close>

datatype py_error =
    KeyError
  | IndexError
  | ValueError
  | AssertionError
  | FileNotFoundError
  | OtherError string

text \<open>\<open>df[name]\<close>: the column, or \<open>KeyError\<close> when no column has that name.\<close>

definition getitem :: "dataframe \<Rightarrow> string \<Rightarrow> py_error + series" where
  "getitem df name = (case map_of df name of None \<Rightarrow> Inl KeyError | Some col \<Rightarrow> Inr col)"

text \<open>
  \<open>df[name] = vals\<close>: an existing column is overwritten where it stands, a new one is
  appended as the last column. Both scripts assign one value per row of the table, so the
  library's check of the length never fires and is left out.
\<close>

definition setitem :: "dataframe \<Rightarrow> string \<Rightarrow> series \<Rightarrow> dataframe" where
  "setitem df name vals =
     (if name \<in> set (columns df)
      then map (\<lambda>c. if fst c = name then (name, vals) else c) df
      else df @ [(name, vals)])"

text \<open>\<open>df[names]\<close> with a list of names: \<open>KeyError\<close> as soon as one of them is missing.\<close>

fun getitems :: "dataframe \<Rightarrow> string list \<Rightarrow> py_error + dataframe" where
  "getitems df [] = Inr []"
| "getitems df (name # names) =
     (case getitem df name of
        Inl err \<Rightarrow> Inl err
      | Inr col \<Rightarrow> (case getitems df names of
                     Inl err \<Rightarrow> Inl err
                   | Inr rest \<Rightarrow> Inr ((name, col) # rest)))"

subsection \<open>The world the scripts run in\<close>

text \<open>
  Tables are objects: a variable holds a reference, and \<open>df[name] = vals\<close> changes the
  object every alias sees. The heap is the list of allocated tables, a reference is an
  index into it. The world also holds the files on disk, the log written by the test
  script, and the state of numpy's global random generator.
\<close>

text \<open>
  A log record is its level, its format string and the arguments handed to \<open>logging\<close>:
  a number, a shape, or the class of an exception.
\<close>

datatype log_arg = IntArg nat | ShapeArg nat nat | TypeArg py_error

datatype log_entry = Info string "log_arg list" | Error string "log_arg list"

record world =
  heap :: "dataframe list"
  files :: "string list"
  log :: "log_entry list"
  rng :: nat

text \<open>
  What the libraries and the operating system do is a parameter: reading a CSV file,
  drawing a figure from some data and saving it under a path (\<open>None\<close> when that worked),
  and the permutation numpy draws from a generator state.
\<close>

record env =
  read_csv :: "string \<Rightarrow> py_error + dataframe"
  render :: "string \<Rightarrow> dataframe \<Rightarrow> py_error option"
  permutation :: "nat \<Rightarrow> nat \<Rightarrow> nat list"

definition alloc :: "world \<Rightarrow> dataframe \<Rightarrow> nat \<times> world" where
  "alloc w df = (length (heap w), w\<lparr>heap := heap w @ [df]\<rparr>)"

text \<open>\<open>dataframe.copy(deep=True)\<close>: a new object with the same contents.\<close>

definition copy_deep :: "world \<Rightarrow> nat \<Rightarrow> nat \<times> world" where
  "copy_deep w r = alloc w (heap w ! r)"

text \<open>\<open>obj[name] = vals\<close> on the object behind a reference.\<close>

definition setitem_at :: "world \<Rightarrow> nat \<Rightarrow> string \<Rightarrow> series \<Rightarrow> world" where
  "setitem_at w r name vals = w\<lparr>heap := (heap w)[r := setitem (heap w ! r) name vals]\<rparr>"

definition savefig :: "env \<Rightarrow> world \<Rightarrow> string \<Rightarrow> dataframe \<Rightarrow> py_error option \<times> world" where
  "savefig en w fname data =
     (case render en fname data of
        Some err \<Rightarrow> (Some err, w)
      | None \<Rightarrow> (None, w\<lparr>files := fname # files w\<rparr>))"

section \<open>churn_library: import_data and perform_eda\<close>

definition import_data :: "env \<Rightarrow> world \<Rightarrow> string \<Rightarrow> (py_error + nat) \<times> world" where
  "import_data en w pth =
     (case read_csv en pth of
        Inl err \<Rightarrow> (Inl err, w)
      | Inr df \<Rightarrow> (let (r, w1) = alloc w df in (Inr r, w1)))"

text \<open>The lambda of line 47: \<open>0 if val == "Existing Customer" else 1\<close>.\<close>

definition churn_of :: "cell \<Rightarrow> cell" where
  "churn_of val = (if val = Str ''Existing Customer'' then Num 0 else Num 1)"

text \<open>
  Lines 46-47, the churn derivation, on the object \<open>eda_df\<close>:
  \<open>eda_df['Churn'] = eda_df['Attrition_Flag'].apply(...)\<close>.
\<close>

definition derive_churn :: "world \<Rightarrow> nat \<Rightarrow> py_error option \<times> world" where
  "derive_churn w eda_df =
     (case getitem (heap w ! eda_df) ''Attrition_Flag'' of
        Inl err \<Rightarrow> (Some err, w)
      | Inr flags \<Rightarrow> (None, setitem_at w eda_df ''Churn'' (map churn_of flags)))"

definition columns_to_plot :: "string list" where
  "columns_to_plot = [''Churn'', ''Customer_Age'', ''Marital_Status'', ''Total_Trans_Ct'']"

text \<open>\<open>str.lower\<close> on the characters a column name is made of.\<close>

definition lower_char :: "char \<Rightarrow> char" where
  "lower_char c =
     (case map_of (zip ''ABCDEFGHIJKLMNOPQRSTUVWXYZ'' ''abcdefghijklmnopqrstuvwxyz'') c of
        Some l \<Rightarrow> l
      | None \<Rightarrow> c)"

text \<open>\<open>f'./images/eda/{column.lower().replace(" ", "_")}_distribution.png'\<close>\<close>

definition eda_fname :: "string \<Rightarrow> string" where
  "eda_fname column =
     ''./images/eda/''
       @ map (\<lambda>c. if c = CHR '' '' then CHR ''_'' else c) (map lower_char column)
       @ ''_distribution.png''"

text \<open>
  The loop of lines 57-68: read the column (a \<open>KeyError\<close> when it is missing), draw it and
  save the figure.
\<close>

fun plot_columns :: "env \<Rightarrow> world \<Rightarrow> nat \<Rightarrow> string list \<Rightarrow> py_error option \<times> world" where
  "plot_columns en w eda_df [] = (None, w)"
| "plot_columns en w eda_df (column # rest) =
     (case getitem (heap w ! eda_df) column of
        Inl err \<Rightarrow> (Some err, w)
      | Inr col \<Rightarrow>
          (case savefig en w (eda_fname column) [(column, col)] of
             (Some err, w1) \<Rightarrow> (Some err, w1)
           | (None, w1) \<Rightarrow> plot_columns en w1 eda_df rest))"

definition perform_eda :: "env \<Rightarrow> world \<Rightarrow> nat \<Rightarrow> (py_error + nat) \<times> world" where
  "perform_eda en w dataframe =
     (let (eda_df, w1) = copy_deep w dataframe in
      case derive_churn w1 eda_df of
        (Some err, w2) \<Rightarrow> (Inl err, w2)
      | (None, w2) \<Rightarrow>
          (case plot_columns en w2 eda_df columns_to_plot of
             (Some err, w3) \<Rightarrow> (Inl err, w3)
           | (None, w3) \<Rightarrow>
               (case savefig en w3 ''./images/eda/heatmap.png'' (heap w3 ! eda_df) of
                  (Some err, w4) \<Rightarrow> (Inl err, w4)
                | (None, w4) \<Rightarrow> (Inr eda_df, w4))))"

section \<open>churn_library: encoder_helper\<close>

text \<open>
  \<open>dataframe.groupby(by).mean()[target]\<close>. Grouping raises \<open>KeyError\<close> when \<open>by\<close> is not a
  column, and leaves out the rows whose key is missing. The mean is taken over the numeric
  columns other than the key (the pandas the script is written for silently drops the
  others), skipping missing values, so selecting \<open>target\<close> raises \<open>KeyError\<close> when it is
  the key itself, is not a column, or is not numeric. The result is a Series indexed by
  the group keys; its order is not observed by the caller.

  A column is numeric when it has at least one row and holds no string. A column without
  any row, as \<open>read_csv\<close> gives it for a file that has only its header line and as
  \<open>apply\<close> derives from it, has dtype \<open>object\<close> and is dropped from the mean like a column
  of strings.
\<close>

definition is_numeric :: "series \<Rightarrow> bool" where
  "is_numeric col =
     (col \<noteq> [] \<and> list_all (\<lambda>v. case v of Str _ \<Rightarrow> False | _ \<Rightarrow> True) col)"

definition group_values :: "series \<Rightarrow> series \<Rightarrow> cell \<Rightarrow> rat list" where
  "group_values keys vals k =
     List.map_filter
       (\<lambda>p. case snd p of Num x \<Rightarrow> (if fst p = k then Some x else None) | _ \<Rightarrow> None)
       (zip keys vals)"

definition mean :: "rat list \<Rightarrow> cell" where
  "mean xs = (if xs = [] then Null else Num (sum_list xs / of_nat (length xs)))"

definition groupby_mean :: "dataframe \<Rightarrow> string \<Rightarrow> string \<Rightarrow> py_error + (cell \<times> cell) list" where
  "groupby_mean df by target =
     (case getitem df by of
        Inl err \<Rightarrow> Inl err
      | Inr keys \<Rightarrow>
          if target = by then Inl KeyError
          else (case getitem df target of
                  Inl err \<Rightarrow> Inl err
                | Inr vals \<Rightarrow>
                    if \<not> is_numeric vals then Inl KeyError
                    else Inr (map (\<lambda>k. (k, mean (group_values keys vals k)))
                                (remdups (filter (\<lambda>k. k \<noteq> Null) keys)))))"

text \<open>\<open>column_groups.loc[val]\<close>: \<open>KeyError\<close> when \<open>val\<close> is not a group key.\<close>

definition loc :: "(cell \<times> cell) list \<Rightarrow> cell \<Rightarrow> py_error + cell" where
  "loc groups val = (case map_of groups val of None \<Rightarrow> Inl KeyError | Some m \<Rightarrow> Inr m)"

text \<open>The inner loop of lines 98-99, with \<open>column_lst\<close> as the accumulator.\<close>

fun lookup_loop :: "(cell \<times> cell) list \<Rightarrow> series \<Rightarrow> series \<Rightarrow> py_error + series" where
  "lookup_loop column_groups [] column_lst = Inr column_lst"
| "lookup_loop column_groups (val # rest) column_lst =
     (case loc column_groups val of
        Inl err \<Rightarrow> Inl err
      | Inr m \<Rightarrow> lookup_loop column_groups rest (column_lst @ [m]))"

text \<open>Lines 95-99: the encoded values of one category, read from the table \<open>dataframe\<close>.\<close>

definition encode_column :: "dataframe \<Rightarrow> string \<Rightarrow> py_error + series" where
  "encode_column df category =
     (case groupby_mean df category ''Churn'' of
        Inl err \<Rightarrow> Inl err
      | Inr column_groups \<Rightarrow>
          (case getitem df category of
             Inl err \<Rightarrow> Inl err
           | Inr vals \<Rightarrow> lookup_loop column_groups vals []))"

text \<open>\<open>if response:\<close> is false for \<open>None\<close> and for the empty string.\<close>

definition truthy :: "string option \<Rightarrow> bool" where
  "truthy response = (case response of None \<Rightarrow> False | Some s \<Rightarrow> s \<noteq> [])"

definition target_name :: "string \<Rightarrow> string option \<Rightarrow> string" where
  "target_name category response =
     (if truthy response then category @ ''_'' @ the response else category)"

text \<open>
  The loop of lines 94-104: every round reads the object \<open>dataframe\<close> and writes the
  object \<open>encoder_df\<close>.
\<close>

fun encoder_loop :: "world \<Rightarrow> nat \<Rightarrow> nat \<Rightarrow> string list \<Rightarrow> string option \<Rightarrow> py_error option \<times> world" where
  "encoder_loop w dataframe encoder_df [] response = (None, w)"
| "encoder_loop w dataframe encoder_df (category # rest) response =
     (case encode_column (heap w ! dataframe) category of
        Inl err \<Rightarrow> (Some err, w)
      | Inr column_lst \<Rightarrow>
          encoder_loop (setitem_at w encoder_df (target_name category response) column_lst)
            dataframe encoder_df rest response)"

definition encoder_helper :: "world \<Rightarrow> nat \<Rightarrow> string list \<Rightarrow> string option \<Rightarrow> (py_error + nat) \<times> world" where
  "encoder_helper w dataframe category_lst response =
     (let (encoder_df, w1) = copy_deep w dataframe in
      case encoder_loop w1 dataframe encoder_df category_lst response of
        (Some err, w2) \<Rightarrow> (Inl err, w2)
      | (None, w2) \<Rightarrow> (Inr encoder_df, w2))"

text \<open>
  The encoder's value in the words of the specification: the mean of \<open>Churn\<close> over all
  rows of the table whose category value is \<open>k\<close> (a missing \<open>Churn\<close> is skipped, as the
  library's mean does; with nothing to average the result is missing).
\<close>

definition category_mean :: "series \<Rightarrow> series \<Rightarrow> cell \<Rightarrow> cell" where
  "category_mean keys churn k =
     (let rows = filter (\<lambda>j. keys ! j = k) [0..<length keys];
          xs = concat (map (\<lambda>j. case churn ! j of Num x \<Rightarrow> [x] | _ \<Rightarrow> []) rows)
      in if xs = [] then Null else Num (sum_list xs / of_nat (length xs)))"

section \<open>churn_library: perform_feature_engineering\<close>

text \<open>\<open>x.iloc[idx]\<close>: the rows at the given positions, in that order.\<close>

definition iloc :: "dataframe \<Rightarrow> nat list \<Rightarrow> dataframe" where
  "iloc df idx = map (\<lambda>c. (fst c, map (\<lambda>i. snd c ! i) idx)) df"

text \<open>
  scikit-learn's \<open>train_test_split(x, y, test_size=..., random_state=...)\<close>: both arguments
  must have the same number of samples; the test part has \<open>ceil(test_size * n)\<close> samples
  and the train part the rest, which must not be empty; the samples are shuffled by a
  permutation drawn from a generator seeded with \<open>random_state\<close>, or from numpy's global
  generator (which moves on) when no seed is given; the test part is the head of the
  permutation. The fraction \<open>0.3\<close> is read as the exact 3/10.
\<close>

definition train_test_split ::
  "env \<Rightarrow> world \<Rightarrow> dataframe \<Rightarrow> series \<Rightarrow> rat \<Rightarrow> nat option
     \<Rightarrow> (py_error + dataframe \<times> dataframe \<times> series \<times> series) \<times> world" where
  "train_test_split en w x y test_size random_state =
     (let n_samples = length y in
      if \<not> list_all (\<lambda>c. length (snd c) = n_samples) x then (Inl ValueError, w)
      else
        let n_test = nat \<lceil>test_size * of_nat n_samples\<rceil>;
            n_train = n_samples - n_test
        in if n_train = 0 then (Inl ValueError, w)
           else
             let (perm, w1) =
                   (case random_state of
                      Some seed \<Rightarrow> (permutation en seed n_samples, w)
                    | None \<Rightarrow> (permutation en (rng w) n_samples, w\<lparr>rng := Suc (rng w)\<rparr>));
                 test = take n_test perm;
                 train = take n_train (drop n_test perm)
             in (Inr (iloc x train, iloc x test, map (\<lambda>i. y ! i) train, map (\<lambda>i. y ! i) test),
                 w1))"

definition cat_columns :: "string list" where
  "cat_columns =
     [''Gender'', ''Education_Level'', ''Marital_Status'', ''Income_Category'', ''Card_Category'']"

definition keep_cols :: "string list" where
  "keep_cols =
     [''Customer_Age'', ''Dependent_count'', ''Months_on_book'', ''Total_Relationship_Count'',
      ''Months_Inactive_12_mon'', ''Contacts_Count_12_mon'', ''Credit_Limit'',
      ''Total_Revolving_Bal'', ''Avg_Open_To_Buy'', ''Total_Amt_Chng_Q4_Q1'',
      ''Total_Trans_Amt'', ''Total_Trans_Ct'', ''Total_Ct_Chng_Q4_Q1'',
      ''Avg_Utilization_Ratio'', ''Gender_Churn'', ''Education_Level_Churn'',
      ''Marital_Status_Churn'', ''Income_Category_Churn'', ''Card_Category_Churn'']"

text \<open>
  The default \<open>response='Churn'\<close> is \<open>Some ''Churn''\<close> at the call. The four results are
  returned as values: they are new objects that nothing else refers to.
\<close>

definition perform_feature_engineering ::
  "env \<Rightarrow> world \<Rightarrow> nat \<Rightarrow> string option
     \<Rightarrow> (py_error + dataframe \<times> dataframe \<times> series \<times> series) \<times> world" where
  "perform_feature_engineering en w dataframe response =
     (case encoder_helper w dataframe cat_columns response of
        (Inl err, w1) \<Rightarrow> (Inl err, w1)
      | (Inr encoded_df, w1) \<Rightarrow>
          (case getitem (heap w1 ! encoded_df) ''Churn'' of
             Inl err \<Rightarrow> (Inl err, w1)
           | Inr target_feature \<Rightarrow>
               (case getitems (heap w1 ! encoded_df) keep_cols of
                  Inl err \<Rightarrow> (Inl err, w1)
                | Inr x_dataframe \<Rightarrow>
                    train_test_split en w1 x_dataframe target_feature (3 / 10) (Some 42))))"

section \<open>churn_library: feature_importance_plot\<close>

text \<open>
  \<open>np.argsort\<close>: the positions in ascending order of their values. Positions of equal
  values are kept in their order here; numpy promises no order among them.
\<close>

definition argsort :: "rat list \<Rightarrow> nat list" where
  "argsort xs = map snd (sort_key fst (zip xs [0..<length xs]))"

text \<open>\<open>[features.columns[i] for i in indices]\<close>\<close>

fun column_names :: "string list \<Rightarrow> nat list \<Rightarrow> py_error + string list" where
  "column_names cols [] = Inr []"
| "column_names cols (i # rest) =
     (if i < length cols
      then (case column_names cols rest of
              Inl err \<Rightarrow> Inl err
            | Inr names \<Rightarrow> Inr (cols ! i # names))
      else Inl IndexError)"

text \<open>
  Lines 247-266: the bars of the chart from left to right, each with its tick label.
  \<open>plt.bar\<close> refuses heights whose number differs from the number of positions.
\<close>

definition importance_chart :: "rat list \<Rightarrow> dataframe \<Rightarrow> py_error + (string \<times> rat) list" where
  "importance_chart importances features =
     (let indices = rev (argsort importances) in
      case column_names (columns features) indices of
        Inl err \<Rightarrow> Inl err
      | Inr names \<Rightarrow>
          if length (columns features) \<noteq> length indices then Inl ValueError
          else Inr (zip names (map (\<lambda>i. importances ! i) indices)))"

definition feature_importance_plot ::
  "env \<Rightarrow> world \<Rightarrow> rat list \<Rightarrow> dataframe \<Rightarrow> string \<Rightarrow> py_error option \<times> world" where
  "feature_importance_plot en w importances features output_pth =
     (case importance_chart importances features of
        Inl err \<Rightarrow> (Some err, w)
      | Inr chart \<Rightarrow>
          savefig en w (output_pth @ ''feature_importances.png'')
            (map (\<lambda>b. (fst b, [Num (snd b)])) chart))"

section \<open>churn_script_logging_and_tests\<close>

definition logging_info :: "world \<Rightarrow> string \<Rightarrow> log_arg list \<Rightarrow> world" where
  "logging_info w msg args = w\<lparr>log := log w @ [Info msg args]\<rparr>"

definition logging_error :: "world \<Rightarrow> string \<Rightarrow> log_arg list \<Rightarrow> world" where
  "logging_error w msg args = w\<lparr>log := log w @ [Error msg args]\<rparr>"

text \<open>
  Every test returns \<open>None\<close> when it ends normally and \<open>Some err\<close> when the exception
  \<open>err\<close> leaves it.
\<close>

definition test_import :: "env \<Rightarrow> world \<Rightarrow> py_error option \<times> world" where
  "test_import en w =
     (case import_data en w ''./data/bank_data.csv'' of
        (Inl err, w1) \<Rightarrow>
          (if err = FileNotFoundError
           then (Some err, logging_error w1 ''Testing import_data: The file was not found'' [])
           else (Some err, w1))
      | (Inr dataframe, w1) \<Rightarrow>
          (let w2 = logging_info w1 ''Testing import_data: SUCCESS'' [];
               df = heap w2 ! dataframe
           in if nrows df > 0 \<and> length (columns df) > 0
              then (None, logging_info w2 (''Rows: %d'' @ [char_of (9 :: nat)] @ ''Columns: %d'')
                            [IntArg (nrows df), IntArg (length (columns df))])
              else (Some AssertionError,
                    logging_error w2
                      ''Testing import_data: The file does not appear to have rows and columns''
                      [])))"

definition image_files :: "string list" where
  "image_files =
     [''churn_distribution.png'', ''customer_age_distribution.png'',
      ''marital_status_distribution.png'', ''total_trans_ct_distribution.png'',
      ''heatmap.png'']"

text \<open>The loop of lines 69-71: \<open>assert os.path.isfile(file_path) is True\<close>.\<close>

fun assert_files :: "world \<Rightarrow> string list \<Rightarrow> py_error option" where
  "assert_files w [] = None"
| "assert_files w (image_file # rest) =
     (if ''./images/eda/'' @ image_file \<in> set (files w)
      then assert_files w rest else Some AssertionError)"

text \<open>
  \<open>import_data\<close> is called outside the \<open>try\<close>; \<open>except Exception\<close> around \<open>perform_eda\<close>
  logs and goes on to the loop over the image files.
\<close>

definition test_eda :: "env \<Rightarrow> world \<Rightarrow> py_error option \<times> world" where
  "test_eda en w =
     (case import_data en w ''./data/bank_data.csv'' of
        (Inl err, w1) \<Rightarrow> (Some err, w1)
      | (Inr bank_df, w1) \<Rightarrow>
          (let w3 = (case perform_eda en w1 bank_df of
                       (Inr eda_df, w2) \<Rightarrow> logging_info w2 ''Testing perform_eda: SUCCESS'' []
                     | (Inl err, w2) \<Rightarrow>
                         logging_error w2 ''Testing perform_eda failed - Error type: %s''
                           [TypeArg err])
           in (assert_files w3 image_files, w3)))"

definition two_test_level :: bool where
  "two_test_level = False"

text \<open>
  Lines 155-163, the \<open>try\<close> with both calls inside: the split on success, nothing when an
  exception was caught and logged.
\<close>

definition try_feature_engineering ::
  "env \<Rightarrow> world \<Rightarrow> (dataframe \<times> dataframe \<times> series \<times> series) option \<times> world" where
  "try_feature_engineering en w =
     (case import_data en w ''./data/bank_data.csv'' of
        (Inl err, w1) \<Rightarrow>
          (None, logging_error w1 ''Testing perform_feature_engineering failed - Error type: %s''
                   [TypeArg err])
      | (Inr dataframe, w1) \<Rightarrow>
          (case perform_feature_engineering en w1 dataframe (Some ''Churn'') of
             (Inl err, w2) \<Rightarrow>
               (None, logging_error w2
                        ''Testing perform_feature_engineering failed - Error type: %s''
                        [TypeArg err])
           | (Inr split, w2) \<Rightarrow>
               (Some split, logging_info w2 ''Testing perform_feature_engineering: SUCCESS'' [])))"

text \<open>
  The second block runs only under \<open>two_test_level\<close>: with no split bound, reading
  \<open>x_train\<close> raises \<open>UnboundLocalError\<close>, which \<open>except AssertionError\<close> lets through.
\<close>

definition test_perform_feature_engineering :: "env \<Rightarrow> world \<Rightarrow> py_error option \<times> world" where
  "test_perform_feature_engineering en w =
     (case try_feature_engineering en w of
        (bound, w1) \<Rightarrow>
          if two_test_level
          then (case bound of
                  None \<Rightarrow> (Some (OtherError ''UnboundLocalError''), w1)
                | Some (x_train, x_test, y_train, y_test) \<Rightarrow>
                    if nrows x_train > 0 \<and> length (columns x_train) > 0
                       \<and> nrows x_test > 0 \<and> length (columns x_test) > 0
                       \<and> length y_train > 0 \<and> length y_test > 0
                    then (None, logging_info w1
                            ''perform_feature_engineering returned Train and Test sets of shape %s %s''
                            [ShapeArg (nrows x_train) (length (columns x_train)),
                             ShapeArg (nrows x_test) (length (columns x_test))])
                    else (None, logging_error w1
                            ''The returned train datasets do not have rows and columns'' []))
          else (None, w1))"

section \<open>Example tables and environments\<close>

definition world_of :: "dataframe \<Rightarrow> world" where
  "world_of df = \<lparr>heap = [df], files = [], log = [], rng = 0\<rparr>"

definition flags_df :: dataframe where
  "flags_df =
     [(''Attrition_Flag'', [Null, Str ''Existing Customer'', Str ''Attrited Customer'']),
      (''Customer_Age'', [Num 45, Num 49, Num 51]),
      (''Marital_Status'', [Str ''Married'', Str ''Single'', Str ''Married'']),
      (''Total_Trans_Ct'', [Num 42, Num 33, Num 20])]"

text \<open>An environment in which every figure can be drawn and saved.\<close>

definition quiet_env :: env where
  "quiet_env =
     \<lparr>read_csv = (\<lambda>pth. if pth = ''./data/bank_data.csv'' then Inr flags_df
                          else Inl FileNotFoundError),
      render = (\<lambda>fname data. None),
      permutation = (\<lambda>seed n. rev [0..<n])\<rparr>"

definition enc_df :: dataframe where
  "enc_df = [(''Gender'', [Str ''F'', Str ''M'', Str ''F'']), (''Churn'', [Num 1, Num 0, Num 0])]"

definition clash_df :: dataframe where
  "clash_df =
     [(''Gender'', [Str ''F'', Str ''M'']), (''Gender_Churn'', [Num 7, Num 7]),
      (''Churn'', [Num 1, Num 0])]"

definition score_df :: dataframe where
  "score_df = [(''Score'', [Num (1 / 2), Num (1 / 2)]), (''Churn'', [Num 1, Num 0])]"

definition three_features :: dataframe where
  "three_features =
     [(''Customer_Age'', [Num 45]), (''Credit_Limit'', [Num 1000]),
      (''Total_Trans_Ct'', [Num 42])]"

text \<open>An environment without the data file, one whose data file has no \<open>Attrition_Flag\<close>,
  and a disk that still holds the images of an earlier run.\<close>

definition missing_env :: env where
  "missing_env =
     \<lparr>read_csv = (\<lambda>pth. Inl FileNotFoundError),
      render = (\<lambda>fname data. None),
      permutation = (\<lambda>seed n. rev [0..<n])\<rparr>"

definition churn_env :: env where
  "churn_env =
     \<lparr>read_csv = (\<lambda>pth. if pth = ''./data/bank_data.csv'' then Inr enc_df
                          else Inl FileNotFoundError),
      render = (\<lambda>fname data. None),
      permutation = (\<lambda>seed n. rev [0..<n])\<rparr>"

definition stale_world :: world where
  "stale_world =
     \<lparr>heap = [],
      files = [''./images/eda/churn_distribution.png'',
               ''./images/eda/customer_age_distribution.png'',
               ''./images/eda/marital_status_distribution.png'',
               ''./images/eda/total_trans_ct_distribution.png'',
               ''./images/eda/heatmap.png''],
      log = [], rng = 0\<rparr>"

text \<open>Three customers: the table as the data file has it, with its \<open>Churn\<close> column, and
  with the five encoded columns already in place.\<close>

definition customers_raw :: dataframe where
  "customers_raw =
     [(''Attrition_Flag'',
         [Str ''Existing Customer'', Str ''Attrited Customer'', Str ''Existing Customer'']),
      (''Customer_Age'', [Num 45, Num 49, Num 51]),
      (''Gender'', [Str ''M'', Str ''F'', Str ''M'']),
      (''Dependent_count'', [Num 3, Num 5, Num 3]),
      (''Education_Level'', [Str ''High School'', Str ''Graduate'', Str ''Graduate'']),
      (''Marital_Status'', [Str ''Married'', Str ''Single'', Str ''Married'']),
      (''Income_Category'', [Str ''$60K - $80K'', Str ''Less than $40K'', Str ''$80K - $120K'']),
      (''Card_Category'', [Str ''Blue'', Str ''Blue'', Str ''Blue'']),
      (''Months_on_book'', [Num 39, Num 44, Num 36]),
      (''Total_Relationship_Count'', [Num 5, Num 6, Num 4]),
      (''Months_Inactive_12_mon'', [Num 1, Num 1, Num 1]),
      (''Contacts_Count_12_mon'', [Num 3, Num 2, Num 0]),
      (''Credit_Limit'', [Num 12691, Num 8256, Num 3418]),
      (''Total_Revolving_Bal'', [Num 777, Num 864, Num 0]),
      (''Avg_Open_To_Buy'', [Num 11914, Num 7392, Num 3418]),
      (''Total_Amt_Chng_Q4_Q1'', [Num 1, Num 2, Num 3]),
      (''Total_Trans_Amt'', [Num 1144, Num 1291, Num 1887]),
      (''Total_Trans_Ct'', [Num 42, Num 33, Num 20]),
      (''Total_Ct_Chng_Q4_Q1'', [Num 2, Num 4, Num 2]),
      (''Avg_Utilization_Ratio'', [Num 0, Num 1, Num 0])]"

definition customers :: dataframe where
  "customers = customers_raw @ [(''Churn'', [Num 0, Num 1, Num 0])]"

definition customers_encoded :: dataframe where
  "customers_encoded =
     customers @
     [(''Gender_Churn'', [Num 0, Num 1, Num 0]),
      (''Education_Level_Churn'', [Num 0, Num (1 / 2), Num (1 / 2)]),
      (''Marital_Status_Churn'', [Num 0, Num 1, Num 0]),
      (''Income_Category_Churn'', [Num 0, Num 1, Num 0]),
      (''Card_Category_Churn'', [Num (1 / 3), Num (1 / 3), Num (1 / 3)])]"

text \<open>The table of a data file that has only its header line.\<close>

definition header_only_df :: dataframe where
  "header_only_df = [(''Gender'', []), (''Churn'', [])]"

section \<open>Frame properties of the stateful operations\<close>

lemma savefig_heap: "heap (snd (savefig en w f d)) = heap w"
  by (simp add: savefig_def split: option.splits)

lemma plot_columns_heap: "heap (snd (plot_columns en w e cs)) = heap w"
proof (induction cs arbitrary: w)
  case Nil
  show ?case by simp
next
  case (Cons c cs)
  show ?case
  proof (cases "getitem (heap w ! e) c")
    case (Inl err)
    then show ?thesis by simp
  next
    case (Inr col)
    show ?thesis
    proof (cases "render en (eda_fname c) [(c, col)]")
      case None
      then show ?thesis using Inr Cons.IH [of "w\<lparr>files := eda_fname c # files w\<rparr>"]
        by (simp add: savefig_def)
    next
      case (Some err)
      then show ?thesis using Inr by (simp add: savefig_def)
    qed
  qed
qed

lemma setitem_at_heap:
  "heap (setitem_at w e name vals) = (heap w)[e := setitem (heap w ! e) name vals]"
  by (simp add: setitem_at_def)

lemma derive_churn_heap:
  "derive_churn w e = (res, w') \<Longrightarrow> length (heap w') = length (heap w) \<and> (\<forall>k. k \<noteq> e \<longrightarrow> heap w' ! k = heap w ! k)"
  by (auto simp: derive_churn_def setitem_at_heap split: sum.splits)

lemma encoder_loop_heap:
  "encoder_loop w d e cs resp = (res, w') \<Longrightarrow>
     length (heap w') = length (heap w) \<and> (\<forall>k. k \<noteq> e \<longrightarrow> heap w' ! k = heap w ! k)"
proof (induction cs arbitrary: w)
  case Nil
  then show ?case by simp
next
  case (Cons c cs)
  show ?case
  proof (cases "encode_column (heap w ! d) c")
    case (Inl err)
    then show ?thesis using Cons.prems by simp
  next
    case (Inr column_lst)
    then have "encoder_loop (setitem_at w e (target_name c resp) column_lst) d e cs resp = (res, w')"
      using Cons.prems by simp
    from Cons.IH [OF this] show ?thesis by (simp add: setitem_at_heap)
  qed
qed

lemma perform_eda_frame:
  assumes "r < length (heap w)"
  shows "heap (snd (perform_eda en w r)) ! r = heap w ! r"
proof -
  let ?e = "length (heap w)"
  let ?w1 = "w\<lparr>heap := heap w @ [heap w ! r]\<rparr>"
  obtain res w2 where dc: "derive_churn ?w1 ?e = (res, w2)" by (cases "derive_churn ?w1 ?e")
  from derive_churn_heap [OF dc] assms have h2: "heap w2 ! r = heap w ! r"
    by (simp add: nth_append)
  show ?thesis
  proof (cases res)
    case (Some err)
    then show ?thesis using dc h2 by (simp add: perform_eda_def copy_deep_def alloc_def)
  next
    case None
    obtain res3 w3 where pc: "plot_columns en w2 ?e columns_to_plot = (res3, w3)"
      by (cases "plot_columns en w2 ?e columns_to_plot")
    have h3: "heap w3 = heap w2" using plot_columns_heap [of en w2 ?e columns_to_plot] pc by simp
    obtain res4 w4 where sf: "savefig en w3 ''./images/eda/heatmap.png'' (heap w3 ! ?e) = (res4, w4)"
      by (cases "savefig en w3 ''./images/eda/heatmap.png'' (heap w3 ! ?e)")
    have h4: "heap w4 = heap w3" using savefig_heap [of en w3 "''./images/eda/heatmap.png''" "heap w3 ! ?e"] sf by simp
    show ?thesis using None dc pc sf h2 h3 h4
      by (cases res3; cases res4) (simp_all add: perform_eda_def copy_deep_def alloc_def)
  qed
qed

lemma encoder_helper_frame:
  assumes "r < length (heap w)"
  shows "heap (snd (encoder_helper w r cats resp)) ! r = heap w ! r"
proof -
  let ?e = "length (heap w)"
  let ?w1 = "w\<lparr>heap := heap w @ [heap w ! r]\<rparr>"
  obtain res w2 where el: "encoder_loop ?w1 r ?e cats resp = (res, w2)"
    by (cases "encoder_loop ?w1 r ?e cats resp")
  from encoder_loop_heap [OF el] assms have h2: "heap w2 ! r = heap w ! r"
    by (simp add: nth_append)
  show ?thesis using el h2
    by (cases res) (simp_all add: encoder_helper_def copy_deep_def alloc_def)
qed

section \<open>Columns of a table\<close>


lemma columns_setitem:
  "columns (setitem df name vals) =
     (if name \<in> set (columns df) then columns df else columns df @ [name])"
  by (auto simp: setitem_def columns_def intro: map_idI)

lemma map_of_overwrite:
  "map_of (map (\<lambda>c. if fst c = name then (name, vals) else c) df) k =
     (if k = name \<and> name \<in> fst ` set df then Some vals else map_of df k)"
proof (induction df)
  case Nil
  show ?case by simp
next
  case (Cons c df)
  show ?case using Cons.IH by (cases c) (simp, force)
qed

lemma getitem_setitem:
  "getitem (setitem df name vals) k = (if k = name then Inr vals else getitem df k)"
proof (cases "name \<in> set (columns df)")
  case True
  then show ?thesis
    by (simp add: getitem_def setitem_def map_of_overwrite columns_def)
next
  case False
  then have "map_of df name = None" by (simp add: columns_def map_of_eq_None_iff)
  then show ?thesis using False
    by (auto simp: getitem_def setitem_def map_add_def split: option.splits)
qed

lemma getitem_Inr_iff: "(\<exists>col. getitem df name = Inr col) \<longleftrightarrow> name \<in> set (columns df)"
  by (auto simp: getitem_def columns_def map_of_eq_None_iff split: option.splits)
    (metis domI domIff map_of_eq_None_iff)

lemma target_name_inj: "target_name c resp = target_name c' resp \<longleftrightarrow> c = c'"
  by (simp add: target_name_def)

lemma encoder_loop_source:
  "d \<noteq> e \<Longrightarrow> encoder_loop w d e cats resp = (res, w') \<Longrightarrow> heap w' ! d = heap w ! d"
proof (induction cats arbitrary: w)
  case Nil
  then show ?case by simp
next
  case (Cons c cs)
  show ?case
  proof (cases "encode_column (heap w ! d) c")
    case (Inl err)
    then show ?thesis using Cons.prems by simp
  next
    case (Inr col)
    let ?w1 = "setitem_at w e (target_name c resp) col"
    have "encoder_loop ?w1 d e cs resp = (res, w')" using Inr Cons.prems by simp
    from Cons.IH [OF Cons.prems(1) this] show ?thesis
      using Cons.prems(1) by (simp add: setitem_at_def)
  qed
qed

lemma encoder_loop_returns:
  "d \<noteq> e \<Longrightarrow> \<forall>c\<in>set cats. \<exists>col. encode_column (heap w ! d) c = Inr col \<Longrightarrow>
     \<exists>w'. encoder_loop w d e cats resp = (None, w')"
proof (induction cats arbitrary: w)
  case Nil
  show ?case by simp
next
  case (Cons c cs)
  from Cons.prems(2) obtain col where col: "encode_column (heap w ! d) c = Inr col" by auto
  let ?w1 = "setitem_at w e (target_name c resp) col"
  have same: "heap ?w1 ! d = heap w ! d" using Cons.prems(1) by (simp add: setitem_at_def)
  have "\<forall>c\<in>set cs. \<exists>col. encode_column (heap ?w1 ! d) c = Inr col"
    using Cons.prems(2) same by simp
  from Cons.IH [OF Cons.prems(1) this] show ?case using col by simp
qed

lemma encoder_loop_columns_set:
  "e < length (heap w) \<Longrightarrow> encoder_loop w d e cats resp = (None, w') \<Longrightarrow>
     set (columns (heap w' ! e)) =
       set (columns (heap w ! e)) \<union> (\<lambda>c. target_name c resp) ` set cats"
proof (induction cats arbitrary: w)
  case Nil
  then show ?case by simp
next
  case (Cons c cs)
  show ?case
  proof (cases "encode_column (heap w ! d) c")
    case (Inl err)
    then show ?thesis using Cons.prems by simp
  next
    case (Inr col)
    let ?w1 = "setitem_at w e (target_name c resp) col"
    have len: "e < length (heap ?w1)" using Cons.prems(1) by (simp add: setitem_at_def)
    have run: "encoder_loop ?w1 d e cs resp = (None, w')" using Inr Cons.prems by simp
    have "heap ?w1 ! e = setitem (heap w ! e) (target_name c resp) col"
      using Cons.prems(1) by (simp add: setitem_at_def)
    then show ?thesis using Cons.IH [OF len run] by (auto simp: columns_setitem)
  qed
qed

lemma encoder_loop_columns_fresh:
  "e < length (heap w) \<Longrightarrow> encoder_loop w d e cats resp = (None, w') \<Longrightarrow>
   distinct cats \<Longrightarrow> \<forall>c\<in>set cats. target_name c resp \<notin> set (columns (heap w ! e)) \<Longrightarrow>
     columns (heap w' ! e) = columns (heap w ! e) @ map (\<lambda>c. target_name c resp) cats"
proof (induction cats arbitrary: w)
  case Nil
  then show ?case by simp
next
  case (Cons c cs)
  show ?case
  proof (cases "encode_column (heap w ! d) c")
    case (Inl err)
    then show ?thesis using Cons.prems by simp
  next
    case (Inr col)
    let ?w1 = "setitem_at w e (target_name c resp) col"
    have len: "e < length (heap ?w1)" using Cons.prems(1) by (simp add: setitem_at_def)
    have run: "encoder_loop ?w1 d e cs resp = (None, w')" using Inr Cons.prems by simp
    have h1: "heap ?w1 ! e = setitem (heap w ! e) (target_name c resp) col"
      using Cons.prems(1) by (simp add: setitem_at_def)
    have cols1: "columns (heap ?w1 ! e) = columns (heap w ! e) @ [target_name c resp]"
      using h1 Cons.prems(4) by (simp add: columns_setitem)
    have fresh: "\<forall>c'\<in>set cs. target_name c' resp \<notin> set (columns (heap ?w1 ! e))"
      using Cons.prems(3,4) cols1 by (auto simp: target_name_inj)
    have "distinct cs" using Cons.prems(3) by simp
    from Cons.IH [OF len run this fresh] show ?thesis using cols1 by simp
  qed
qed

lemma encoder_loop_columns_present:
  "e < length (heap w) \<Longrightarrow> encoder_loop w d e cats resp = (None, w') \<Longrightarrow>
   \<forall>c\<in>set cats. target_name c resp \<in> set (columns (heap w ! e)) \<Longrightarrow>
     columns (heap w' ! e) = columns (heap w ! e)"
proof (induction cats arbitrary: w)
  case Nil
  then show ?case by simp
next
  case (Cons c cs)
  show ?case
  proof (cases "encode_column (heap w ! d) c")
    case (Inl err)
    then show ?thesis using Cons.prems by simp
  next
    case (Inr col)
    let ?w1 = "setitem_at w e (target_name c resp) col"
    have len: "e < length (heap ?w1)" using Cons.prems(1) by (simp add: setitem_at_def)
    have run: "encoder_loop ?w1 d e cs resp = (None, w')" using Inr Cons.prems by simp
    have h1: "heap ?w1 ! e = setitem (heap w ! e) (target_name c resp) col"
      using Cons.prems(1) by (simp add: setitem_at_def)
    have cols1: "columns (heap ?w1 ! e) = columns (heap w ! e)"
      using h1 Cons.prems(3) by (simp add: columns_setitem)
    have "\<forall>c'\<in>set cs. target_name c' resp \<in> set (columns (heap ?w1 ! e))"
      using Cons.prems(3) cols1 by simp
    from Cons.IH [OF len run this] show ?thesis using cols1 by simp
  qed
qed

lemma encoder_loop_values:
  "d \<noteq> e \<Longrightarrow> e < length (heap w) \<Longrightarrow> encoder_loop w d e cats resp = (None, w') \<Longrightarrow>
     (\<forall>c\<in>set cats. getitem (heap w' ! e) (target_name c resp) = encode_column (heap w ! d) c) \<and>
     (\<forall>name. name \<notin> (\<lambda>c. target_name c resp) ` set cats \<longrightarrow>
        getitem (heap w' ! e) name = getitem (heap w ! e) name)"
proof (induction cats arbitrary: w)
  case Nil
  then show ?case by simp
next
  case (Cons c cs)
  show ?case
  proof (cases "encode_column (heap w ! d) c")
    case (Inl err)
    then show ?thesis using Cons.prems by simp
  next
    case (Inr col)
    let ?w1 = "setitem_at w e (target_name c resp) col"
    have len: "e < length (heap ?w1)" using Cons.prems(2) by (simp add: setitem_at_def)
    have run: "encoder_loop ?w1 d e cs resp = (None, w')" using Inr Cons.prems by simp
    have h1: "heap ?w1 ! e = setitem (heap w ! e) (target_name c resp) col"
      using Cons.prems(2) by (simp add: setitem_at_def)
    have hd: "heap ?w1 ! d = heap w ! d" using Cons.prems(1) by (simp add: setitem_at_def)
    note IH = Cons.IH [OF Cons.prems(1) len run, unfolded hd h1]
    have new: "\<forall>c'\<in>set (c # cs).
        getitem (heap w' ! e) (target_name c' resp) = encode_column (heap w ! d) c'"
    proof
      fix c' assume mem: "c' \<in> set (c # cs)"
      show "getitem (heap w' ! e) (target_name c' resp) = encode_column (heap w ! d) c'"
      proof (cases "c' \<in> set cs")
        case True
        then show ?thesis using IH by simp
      next
        case False
        then have eq: "c' = c" using mem by simp
        have "target_name c resp \<notin> (\<lambda>c. target_name c resp) ` set cs"
          using False eq by (auto simp: target_name_inj)
        then have "getitem (heap w' ! e) (target_name c resp) =
            getitem (setitem (heap w ! e) (target_name c resp) col) (target_name c resp)"
          using IH by blast
        then show ?thesis using eq Inr by (simp add: getitem_setitem)
      qed
    qed
    have old: "\<forall>name. name \<notin> (\<lambda>c. target_name c resp) ` set (c # cs) \<longrightarrow>
        getitem (heap w' ! e) name = getitem (heap w ! e) name"
    proof (intro allI impI)
      fix name assume "name \<notin> (\<lambda>c. target_name c resp) ` set (c # cs)"
      then have a: "name \<noteq> target_name c resp" and b: "name \<notin> (\<lambda>c. target_name c resp) ` set cs"
        by auto
      from b IH have "getitem (heap w' ! e) name =
          getitem (setitem (heap w ! e) (target_name c resp) col) name" by blast
      then show "getitem (heap w' ! e) name = getitem (heap w ! e) name"
        using a by (simp add: getitem_setitem)
    qed
    from new old show ?thesis by blast
  qed
qed

section \<open>The encoded values\<close>

lemma map_filter_concat:
  "List.map_filter f xs = concat (map (\<lambda>x. case f x of None \<Rightarrow> [] | Some y \<Rightarrow> [y]) xs)"
  by (induction xs) (auto simp: List.map_filter_simps split: option.splits)

lemma concat_map_if:
  "concat (map (\<lambda>j. if P j then g j else []) xs) = concat (map g (filter P xs))"
  by (induction xs) simp_all

lemma zip_as_rows:
  "length keys = length vals \<Longrightarrow> zip keys vals = map (\<lambda>j. (keys ! j, vals ! j)) [0..<length keys]"
  by (rule nth_equalityI) simp_all

lemma group_values_rows:
  assumes "length keys = length vals"
  shows "group_values keys vals k =
     concat (map (\<lambda>j. case vals ! j of Num x \<Rightarrow> [x] | _ \<Rightarrow> [])
               (filter (\<lambda>j. keys ! j = k) [0..<length keys]))"
proof -
  have "group_values keys vals k =
      concat (map (\<lambda>j. if keys ! j = k then (case vals ! j of Num x \<Rightarrow> [x] | _ \<Rightarrow> []) else [])
                [0..<length keys])"
    unfolding group_values_def map_filter_concat zip_as_rows [OF assms] map_map
    by (rule arg_cong [where f = concat], rule map_cong) (auto split: cell.splits)
  also have "\<dots> = concat (map (\<lambda>j. case vals ! j of Num x \<Rightarrow> [x] | _ \<Rightarrow> [])
               (filter (\<lambda>j. keys ! j = k) [0..<length keys]))"
    by (rule concat_map_if)
  finally show ?thesis .
qed

lemma mean_group_values:
  "length keys = length vals \<Longrightarrow> mean (group_values keys vals k) = category_mean keys vals k"
  by (simp add: mean_def category_mean_def group_values_rows Let_def)

lemma lookup_loop_all:
  "\<forall>v\<in>set vals. map_of groups v = Some (f v) \<Longrightarrow>
     lookup_loop groups vals acc = Inr (acc @ map f vals)"
  by (induction vals arbitrary: acc) (simp_all add: loc_def)

lemma map_of_keyed: "k \<in> set ks \<Longrightarrow> map_of (map (\<lambda>k. (k, f k)) ks) k = Some (f k)"
  by (induction ks) auto

lemma encode_column_result:
  assumes "getitem df c = Inr keys" "c \<noteq> ''Churn''" "getitem df ''Churn'' = Inr churn"
    "is_numeric churn" "Null \<notin> set keys"
  shows "encode_column df c = Inr (map (\<lambda>k. mean (group_values keys churn k)) keys)"
proof -
  let ?groups = "map (\<lambda>k. (k, mean (group_values keys churn k))) (remdups (filter (\<lambda>k. k \<noteq> Null) keys))"
  have g: "groupby_mean df c ''Churn'' = Inr ?groups"
    using assms by (simp add: groupby_mean_def)
  have "\<forall>v\<in>set keys. map_of ?groups v = Some (mean (group_values keys churn v))"
    using assms(5) by (auto intro!: map_of_keyed)
  from lookup_loop_all [OF this, of "[]"] show ?thesis using g assms(1)
    by (simp add: encode_column_def)
qed


lemma getitem_mem: "getitem df name = Inr col \<Longrightarrow> (name, col) \<in> set df"
  by (auto simp: getitem_def split: option.splits dest: map_of_SomeD)

lemma getitem_length: "wf_df df \<Longrightarrow> getitem df name = Inr col \<Longrightarrow> length col = nrows df"
  by (auto simp: wf_df_def list_all_iff dest!: getitem_mem)

lemma category_mean_not_Str: "category_mean keys churn k \<noteq> Str s"
  by (simp add: category_mean_def Let_def)

lemma encode_column_spec:
  assumes "wf_df df" "getitem df c = Inr keys" "c \<noteq> ''Churn''" "getitem df ''Churn'' = Inr churn"
    "is_numeric churn" "Null \<notin> set keys"
  shows "encode_column df c = Inr (map (category_mean keys churn) keys)"
proof -
  have "length keys = length churn"
    using getitem_length [OF assms(1,2)] getitem_length [OF assms(1,4)] by simp
  then show ?thesis using encode_column_result [OF assms(2-6)]
    by (simp add: mean_group_values)
qed

lemma encoder_helper_unfold:
  "encoder_helper w r cats resp =
     (case encoder_loop (w\<lparr>heap := heap w @ [heap w ! r]\<rparr>) r (length (heap w)) cats resp of
        (Some err, w2) \<Rightarrow> (Inl err, w2)
      | (None, w2) \<Rightarrow> (Inr (length (heap w)), w2))"
  by (simp add: encoder_helper_def copy_deep_def alloc_def)

text \<open>
  Claim C1, as the code has it. Let the table have at least one row and a numeric
  \<open>Churn\<close> column, let the categories be pairwise distinct columns of the table other than \<open>Churn\<close> that hold no
  missing value, and let the response name be non-empty and such that no
  \<open><category>_<response>\<close> is already a column. Then \<open>encoder_helper\<close> returns a table
  whose columns are those of the input followed by one column \<open><category>_<response>\<close>
  per category, so their number is the input's plus the number of categories, and the new
  column holds in every row the mean of \<open>Churn\<close> over all rows of the input that share the
  row's category value.
\<close>

theorem encoder_helper_response:
  assumes valid: "r < length (heap w)"
    and wf: "wf_df (heap w ! r)"
    and rows: "0 < nrows (heap w ! r)"
    and churn: "getitem (heap w ! r) ''Churn'' = Inr churn" "is_numeric churn"
    and cats: "distinct cats"
      "\<forall>c\<in>set cats. c \<noteq> ''Churn'' \<and> (\<exists>keys. getitem (heap w ! r) c = Inr keys \<and> Null \<notin> set keys)"
    and resp: "response \<noteq> []"
      "\<forall>c\<in>set cats. c @ ''_'' @ response \<notin> set (columns (heap w ! r))"
  shows "\<exists>e w'. encoder_helper w r cats (Some response) = (Inr e, w')
    \<and> columns (heap w' ! e) = columns (heap w ! r) @ map (\<lambda>c. c @ ''_'' @ response) cats
    \<and> length (columns (heap w' ! e)) = length (columns (heap w ! r)) + length cats
    \<and> (\<forall>c\<in>set cats. \<exists>keys. getitem (heap w ! r) c = Inr keys
          \<and> getitem (heap w' ! e) (c @ ''_'' @ response) = Inr (map (category_mean keys churn) keys))"
proof -
  let ?df = "heap w ! r"
  let ?e = "length (heap w)"
  let ?w1 = "w\<lparr>heap := heap w @ [?df]\<rparr>"
  have ne: "r \<noteq> ?e" using valid by simp
  have src: "heap ?w1 ! r = ?df" using valid by (simp add: nth_append)
  have dst: "heap ?w1 ! ?e = ?df" by simp
  have len: "?e < length (heap ?w1)" by simp
  have tn: "\<And>c. target_name c (Some response) = c @ ''_'' @ response"
    using resp(1) by (simp add: target_name_def truthy_def)
  have enc: "\<forall>c\<in>set cats. \<exists>keys. getitem ?df c = Inr keys
      \<and> encode_column ?df c = Inr (map (category_mean keys churn) keys)"
  proof
    fix c assume "c \<in> set cats"
    with cats(2) obtain keys where k: "c \<noteq> ''Churn''" "getitem ?df c = Inr keys" "Null \<notin> set keys"
      by blast
    from encode_column_spec [OF wf k(2) k(1) churn k(3)] k(2)
    show "\<exists>keys. getitem ?df c = Inr keys
      \<and> encode_column ?df c = Inr (map (category_mean keys churn) keys)" by blast
  qed
  then have "\<forall>c\<in>set cats. \<exists>col. encode_column (heap ?w1 ! r) c = Inr col"
    unfolding src by blast
  from encoder_loop_returns [OF ne this]
  obtain w' where run: "encoder_loop ?w1 r ?e cats (Some response) = (None, w')" by blast
  have res: "encoder_helper w r cats (Some response) = (Inr ?e, w')"
    using run by (simp add: encoder_helper_unfold)
  have fresh: "\<forall>c\<in>set cats. target_name c (Some response) \<notin> set (columns (heap ?w1 ! ?e))"
    using resp(2) by (simp add: tn)
  have cols: "columns (heap w' ! ?e) = columns ?df @ map (\<lambda>c. c @ ''_'' @ response) cats"
    using encoder_loop_columns_fresh [OF len run cats(1) fresh] by (simp add: tn)
  have vals: "\<forall>c\<in>set cats. \<exists>keys. getitem ?df c = Inr keys
      \<and> getitem (heap w' ! ?e) (c @ ''_'' @ response) = Inr (map (category_mean keys churn) keys)"
    using encoder_loop_values [OF ne len run] enc unfolding src tn by metis
  from res cols vals show ?thesis by simp
qed

text \<open>
  Claim C6, as the code has it. Let the table have at least one row and a numeric
  \<open>Churn\<close> column, and let the categories be columns of the table other than \<open>Churn\<close> that hold no missing value. With
  no response name (\<open>None\<close> or the empty string) \<open>encoder_helper\<close> returns a table with the
  column names of the input, in the same order; every encoded column holds in every row
  the mean of \<open>Churn\<close> over the rows sharing the row's category value, and so differs from
  the input in every row where the input holds a string.
\<close>

theorem encoder_helper_overwrite:
  assumes valid: "r < length (heap w)"
    and wf: "wf_df (heap w ! r)"
    and rows: "0 < nrows (heap w ! r)"
    and churn: "getitem (heap w ! r) ''Churn'' = Inr churn" "is_numeric churn"
    and cats:
      "\<forall>c\<in>set cats. c \<noteq> ''Churn'' \<and> (\<exists>keys. getitem (heap w ! r) c = Inr keys \<and> Null \<notin> set keys)"
    and resp: "\<not> truthy response"
  shows "\<exists>e w'. encoder_helper w r cats response = (Inr e, w')
    \<and> columns (heap w' ! e) = columns (heap w ! r)
    \<and> (\<forall>c\<in>set cats. \<exists>keys enc. getitem (heap w ! r) c = Inr keys
          \<and> getitem (heap w' ! e) c = Inr enc
          \<and> enc = map (category_mean keys churn) keys
          \<and> (\<forall>i<length keys. (\<exists>s. keys ! i = Str s) \<longrightarrow> enc ! i \<noteq> keys ! i))"
proof -
  let ?df = "heap w ! r"
  let ?e = "length (heap w)"
  let ?w1 = "w\<lparr>heap := heap w @ [?df]\<rparr>"
  have ne: "r \<noteq> ?e" using valid by simp
  have src: "heap ?w1 ! r = ?df" using valid by (simp add: nth_append)
  have dst: "heap ?w1 ! ?e = ?df" by simp
  have len: "?e < length (heap ?w1)" by simp
  have tn: "\<And>c. target_name c response = c"
    using resp by (simp add: target_name_def)
  have enc: "\<forall>c\<in>set cats. \<exists>keys. getitem ?df c = Inr keys
      \<and> encode_column ?df c = Inr (map (category_mean keys churn) keys)"
  proof
    fix c assume "c \<in> set cats"
    with cats obtain keys where k: "c \<noteq> ''Churn''" "getitem ?df c = Inr keys" "Null \<notin> set keys"
      by blast
    from encode_column_spec [OF wf k(2) k(1) churn k(3)] k(2)
    show "\<exists>keys. getitem ?df c = Inr keys
      \<and> encode_column ?df c = Inr (map (category_mean keys churn) keys)" by blast
  qed
  then have "\<forall>c\<in>set cats. \<exists>col. encode_column (heap ?w1 ! r) c = Inr col"
    unfolding src by blast
  from encoder_loop_returns [OF ne this]
  obtain w' where run: "encoder_loop ?w1 r ?e cats response = (None, w')" by blast
  have res: "encoder_helper w r cats response = (Inr ?e, w')"
    using run by (simp add: encoder_helper_unfold)
  have present: "\<forall>c\<in>set cats. target_name c response \<in> set (columns (heap ?w1 ! ?e))"
    using cats getitem_Inr_iff [of ?df] by (auto simp: tn)
  have cols: "columns (heap w' ! ?e) = columns ?df"
    using encoder_loop_columns_present [OF len run present] by simp
  have vals: "\<forall>c\<in>set cats. \<exists>keys enc. getitem ?df c = Inr keys
          \<and> getitem (heap w' ! ?e) c = Inr enc
          \<and> enc = map (category_mean keys churn) keys
          \<and> (\<forall>i<length keys. (\<exists>s. keys ! i = Str s) \<longrightarrow> enc ! i \<noteq> keys ! i)"
  proof
    fix c assume c: "c \<in> set cats"
    with enc obtain keys where k: "getitem ?df c = Inr keys"
      "encode_column ?df c = Inr (map (category_mean keys churn) keys)" by blast
    have g: "getitem (heap w' ! ?e) c = Inr (map (category_mean keys churn) keys)"
      using encoder_loop_values [OF ne len run] c k(2) unfolding src tn by simp
    have "\<forall>i<length keys. (\<exists>s. keys ! i = Str s) \<longrightarrow>
        map (category_mean keys churn) keys ! i \<noteq> keys ! i"
      by (auto simp: category_mean_not_Str)
    with k(1) g show "\<exists>keys enc. getitem ?df c = Inr keys
          \<and> getitem (heap w' ! ?e) c = Inr enc
          \<and> enc = map (category_mean keys churn) keys
          \<and> (\<forall>i<length keys. (\<exists>s. keys ! i = Str s) \<longrightarrow> enc ! i \<noteq> keys ! i)" by blast
  qed
  from res cols vals show ?thesis by simp
qed

text \<open>
  Claim C3. With an empty category list \<open>encoder_helper\<close> returns a table (a new object)
  that is identical to its input.
\<close>

theorem encoder_helper_empty:
  "\<exists>e w'. encoder_helper w r [] response = (Inr e, w') \<and> heap w' ! e = heap w ! r"
  by (simp add: encoder_helper_unfold)

section \<open>The churn derivation\<close>

lemma perform_eda_unfold:
  "perform_eda en w r =
     (case derive_churn (w\<lparr>heap := heap w @ [heap w ! r]\<rparr>) (length (heap w)) of
        (Some err, w2) \<Rightarrow> (Inl err, w2)
      | (None, w2) \<Rightarrow>
          (case plot_columns en w2 (length (heap w)) columns_to_plot of
             (Some err, w3) \<Rightarrow> (Inl err, w3)
           | (None, w3) \<Rightarrow>
               (case savefig en w3 ''./images/eda/heatmap.png'' (heap w3 ! length (heap w)) of
                  (Some err, w4) \<Rightarrow> (Inl err, w4)
                | (None, w4) \<Rightarrow> (Inr (length (heap w)), w4))))"
  by (simp add: perform_eda_def copy_deep_def alloc_def)


lemma derive_churn_result:
  assumes "e < length (heap w)" "getitem (heap w ! e) ''Attrition_Flag'' = Inr flags"
  shows "\<exists>w'. derive_churn w e = (None, w')
     \<and> getitem (heap w' ! e) ''Churn'' = Inr (map churn_of flags)"
  using assms by (simp add: derive_churn_def setitem_at_def getitem_setitem)



section \<open>The size of the test part\<close>

lemma n_test_eq: "nat \<lceil>(3 / 10 :: rat) * of_nat n\<rceil> = (3 * n + 9) div 10"
proof -
  define m where "m = (3 * n + 9) div 10"
  have lo: "10 * m \<le> 3 * n + 9" and hi: "3 * n + 9 < 10 * m + 10"
    unfolding m_def by arith+
  have "(of_nat (10 * m) :: rat) \<le> of_nat (3 * n + 9)" using lo by (simp only: of_nat_le_iff)
  then have a: "of_int (int m) - 1 < (3 / 10 :: rat) * of_nat n" by simp
  have "3 * n \<le> 10 * m" using hi by arith
  then have "(of_nat (3 * n) :: rat) \<le> of_nat (10 * m)" by (simp only: of_nat_le_iff)
  then have b: "(3 / 10 :: rat) * of_nat n \<le> of_int (int m)" by simp
  have "\<lceil>(3 / 10 :: rat) * of_nat n\<rceil> = int m"
    using a b by (rule ceiling_unique)
  then show ?thesis by (simp add: m_def)
qed

section \<open>Runs on the example tables\<close>

lemmas eda_eval = world_of_def quiet_env_def perform_eda_unfold derive_churn_def getitem_def
  setitem_at_def setitem_def columns_def columns_to_plot_def savefig_def churn_of_def

lemma perform_eda_flags_run:
  "perform_eda quiet_env (world_of flags_df) 0 =
     (Inr 1, \<lparr>heap = [flags_df, flags_df @ [(''Churn'', [Num 1, Num 0, Num 1])]],
              files = [''./images/eda/heatmap.png'',
                       ''./images/eda/total_trans_ct_distribution.png'',
                       ''./images/eda/marital_status_distribution.png'',
                       ''./images/eda/customer_age_distribution.png'',
                       ''./images/eda/churn_distribution.png''],
              log = [], rng = 0\<rparr>)"
  by (simp add: eda_eval flags_df_def eda_fname_def lower_char_def)


text \<open>
  Claim C4, counterexample: the first row of the example table has a missing
  \<open>Attrition_Flag\<close>; \<open>perform_eda\<close> returns a table, and that row's \<open>Churn\<close> is 1.
\<close>

theorem null_flag_counterexample:
  "getitem (heap (world_of flags_df) ! 0) ''Attrition_Flag''
       = Inr [Null, Str ''Existing Customer'', Str ''Attrited Customer'']
   \<and> fst (perform_eda quiet_env (world_of flags_df) 0) = Inr 1
   \<and> getitem (heap (snd (perform_eda quiet_env (world_of flags_df) 0)) ! 1) ''Churn''
       = Inr [Num 1, Num 0, Num 1]"
  by (simp add: perform_eda_flags_run) (simp add: world_of_def flags_df_def getitem_def)

text \<open>
  Claim C4, as the code has it. A missing \<open>Attrition_Flag\<close> does not make the churn
  derivation fail: whenever the table has an \<open>Attrition_Flag\<close> column the derivation
  succeeds, the \<open>Churn\<close> column has one value per row, and every row whose
  \<open>Attrition_Flag\<close> is missing gets the value 1.
\<close>

theorem derive_churn_null:
  assumes "e < length (heap w)" "getitem (heap w ! e) ''Attrition_Flag'' = Inr flags"
  shows "\<exists>w' churn. derive_churn w e = (None, w')
     \<and> getitem (heap w' ! e) ''Churn'' = Inr churn
     \<and> length churn = length flags
     \<and> (\<forall>i<length flags. flags ! i = Null \<longrightarrow> churn ! i = Num 1)"
  using derive_churn_result [OF assms] by (auto simp: churn_of_def)

text \<open>Claim C4, witness of the amended statement.\<close>

theorem derive_churn_null_witness:
  "0 < length (heap (world_of flags_df))
   \<and> getitem (heap (world_of flags_df) ! 0) ''Attrition_Flag''
       = Inr [Null, Str ''Existing Customer'', Str ''Attrited Customer'']
   \<and> (\<exists>w' churn. derive_churn (world_of flags_df) 0 = (None, w')
     \<and> getitem (heap w' ! 0) ''Churn'' = Inr churn
     \<and> length churn = length [Null, Str ''Existing Customer'', Str ''Attrited Customer'']
     \<and> (\<forall>i<length [Null, Str ''Existing Customer'', Str ''Attrited Customer''].
            [Null, Str ''Existing Customer'', Str ''Attrited Customer''] ! i = Null \<longrightarrow> churn ! i = Num 1))"
proof -
  have h1: "0 < length (heap (world_of flags_df))" by (simp add: world_of_def)
  have h2: "getitem (heap (world_of flags_df) ! 0) ''Attrition_Flag''
       = Inr [Null, Str ''Existing Customer'', Str ''Attrited Customer'']"
    by (simp add: world_of_def flags_df_def getitem_def)
  from derive_churn_null [OF h1 h2] h1 h2 show ?thesis by blast
qed

text \<open>Claim C3, at the example table.\<close>

theorem encoder_helper_empty_witness:
  "\<exists>e w'. encoder_helper (world_of enc_df) 0 [] None = (Inr e, w') \<and> heap w' ! e = enc_df"
  using encoder_helper_empty [of "world_of enc_df" 0 None] by (simp add: world_of_def)

text \<open>
  Claim C7. \<open>perform_eda\<close> and \<open>encoder_helper\<close> leave the table they are given as it was:
  whether they return or raise, the object behind the argument holds the same columns with
  the same values afterwards.
\<close>

theorem no_mutation:
  assumes "r < length (heap w)"
  shows "heap (snd (perform_eda en w r)) ! r = heap w ! r
     \<and> heap (snd (encoder_helper w r category_lst response)) ! r = heap w ! r"
  using perform_eda_frame [OF assms] encoder_helper_frame [OF assms] by simp

text \<open>
  Claim C7, witness: on the example table \<open>perform_eda\<close> returns (its copy gains the
  \<open>Churn\<close> column) and \<open>encoder_helper\<close> raises (there is no \<open>Churn\<close> to average); the
  table itself is the same after both calls.
\<close>

theorem no_mutation_witness:
  "0 < length (heap (world_of flags_df))
   \<and> heap (snd (perform_eda quiet_env (world_of flags_df) 0)) ! 0 = heap (world_of flags_df) ! 0
   \<and> heap (snd (encoder_helper (world_of flags_df) 0 [''Marital_Status''] None)) ! 0
       = heap (world_of flags_df) ! 0"
proof -
  have h: "0 < length (heap (world_of flags_df))" by (simp add: world_of_def)
  from no_mutation [OF h] h show ?thesis by blast
qed

lemmas enc_eval = world_of_def encoder_helper_unfold encode_column_def groupby_mean_def getitem_def
  is_numeric_def group_values_def mean_def loc_def List.map_filter_simps setitem_at_def
  setitem_def columns_def target_name_def truthy_def

text \<open>On a table without rows the encoder raises \<open>KeyError\<close>: \<open>Churn\<close> is not numeric.\<close>

lemma header_only_run:
  "fst (encoder_helper (world_of header_only_df) 0 [''Gender''] (Some ''Churn'')) = Inl KeyError
   \<and> fst (encoder_helper (world_of header_only_df) 0 [''Gender''] None) = Inl KeyError"
  by (simp add: enc_eval header_only_df_def)

text \<open>
  Claim C1, counterexample: the table already has a column \<open>Gender_Churn\<close>; encoding
  \<open>Gender\<close> with the response name \<open>Churn\<close> overwrites it, and the result has as many
  columns as the input.
\<close>

theorem name_clash_counterexample:
  "fst (encoder_helper (world_of clash_df) 0 [''Gender''] (Some ''Churn'')) = Inr 1
   \<and> heap (snd (encoder_helper (world_of clash_df) 0 [''Gender''] (Some ''Churn''))) ! 1
       = [(''Gender'', [Str ''F'', Str ''M'']), (''Gender_Churn'', [Num 1, Num 0]),
          (''Churn'', [Num 1, Num 0])]
   \<and> length (columns (heap (snd (encoder_helper (world_of clash_df) 0 [''Gender''] (Some ''Churn''))) ! 1))
       \<noteq> length (columns clash_df) + length [''Gender'']"
  by (simp add: enc_eval clash_df_def)

text \<open>Claim C1, witness of the amended statement.\<close>

theorem encoder_helper_response_witness:
  "0 < length (heap (world_of enc_df))
   \<and> wf_df (heap (world_of enc_df) ! 0)
   \<and> 0 < nrows (heap (world_of enc_df) ! 0)
   \<and> getitem (heap (world_of enc_df) ! 0) ''Churn'' = Inr [Num 1, Num 0, Num 0]
   \<and> is_numeric [Num 1, Num 0, Num 0]
   \<and> distinct [''Gender'']
   \<and> ''Gender'' \<noteq> ''Churn''
   \<and> getitem (heap (world_of enc_df) ! 0) ''Gender'' = Inr [Str ''F'', Str ''M'', Str ''F'']
   \<and> Null \<notin> set [Str ''F'', Str ''M'', Str ''F'']
   \<and> ''Churn'' \<noteq> []
   \<and> ''Gender'' @ ''_'' @ ''Churn'' \<notin> set (columns (heap (world_of enc_df) ! 0))
   \<and> (\<exists>e w'. encoder_helper (world_of enc_df) 0 [''Gender''] (Some ''Churn'') = (Inr e, w')
        \<and> columns (heap w' ! e) = [''Gender'', ''Churn'', ''Gender_Churn'']
        \<and> length (columns (heap w' ! e)) = 3
        \<and> getitem (heap w' ! e) ''Gender_Churn'' = Inr [Num (1 / 2), Num 0, Num (1 / 2)])"
proof -
  have h1: "0 < length (heap (world_of enc_df))" by (simp add: world_of_def)
  have h2: "wf_df (heap (world_of enc_df) ! 0)"
    by (simp add: world_of_def enc_df_def wf_df_def columns_def nrows_def)
  have h0: "0 < nrows (heap (world_of enc_df) ! 0)"
    by (simp add: world_of_def enc_df_def nrows_def)
  have h3: "getitem (heap (world_of enc_df) ! 0) ''Churn'' = Inr [Num 1, Num 0, Num 0]"
    by (simp add: world_of_def enc_df_def getitem_def)
  have h4: "is_numeric [Num 1, Num 0, Num 0]" by (simp add: is_numeric_def)
  have h5: "distinct [''Gender'']" by simp
  have h6: "\<forall>c\<in>set [''Gender'']. c \<noteq> ''Churn''
         \<and> (\<exists>keys. getitem (heap (world_of enc_df) ! 0) c = Inr keys \<and> Null \<notin> set keys)"
    by (simp add: world_of_def enc_df_def getitem_def)
  have h7: "''Churn'' \<noteq> []" by simp
  have h8: "\<forall>c\<in>set [''Gender'']. c @ ''_'' @ ''Churn'' \<notin> set (columns (heap (world_of enc_df) ! 0))"
    by (simp add: world_of_def enc_df_def columns_def)
  have k: "getitem (heap (world_of enc_df) ! 0) ''Gender'' = Inr [Str ''F'', Str ''M'', Str ''F'']"
    by (simp add: world_of_def enc_df_def getitem_def)
  have m: "map (category_mean [Str ''F'', Str ''M'', Str ''F''] [Num 1, Num 0, Num 0])
             [Str ''F'', Str ''M'', Str ''F''] = [Num (1 / 2), Num 0, Num (1 / 2)]"
    by (simp add: category_mean_def upt_rec)
  have c: "columns (heap (world_of enc_df) ! 0) = [''Gender'', ''Churn'']"
    by (simp add: world_of_def enc_df_def columns_def)
  from encoder_helper_response [OF h1 h2 h0 h3 h4 h5 h6 h7 h8]
  have "\<exists>e w'. encoder_helper (world_of enc_df) 0 [''Gender''] (Some ''Churn'') = (Inr e, w')
        \<and> columns (heap w' ! e) = [''Gender'', ''Churn'', ''Gender_Churn'']
        \<and> length (columns (heap w' ! e)) = 3
        \<and> getitem (heap w' ! e) ''Gender_Churn'' = Inr [Num (1 / 2), Num 0, Num (1 / 2)]"
    unfolding c using k m by auto
  with h1 h2 h0 h3 h4 h5 h7 h8 k show ?thesis by simp
qed

text \<open>
  Claim C6, counterexample: both rows have the category value 0.5 in the column \<open>Score\<close>,
  and 0.5 is the churn mean of that group; the encoded column equals the input column,
  and the returned table equals its input.
\<close>

theorem same_values_counterexample:
  "fst (encoder_helper (world_of score_df) 0 [''Score''] None) = Inr 1
   \<and> getitem (heap (snd (encoder_helper (world_of score_df) 0 [''Score''] None)) ! 1) ''Score''
       = getitem score_df ''Score''
   \<and> heap (snd (encoder_helper (world_of score_df) 0 [''Score''] None)) ! 1 = score_df"
  by (simp add: enc_eval score_df_def)

text \<open>Claim C6, witness of the amended statement.\<close>

theorem encoder_helper_overwrite_witness:
  "0 < length (heap (world_of enc_df))
   \<and> wf_df (heap (world_of enc_df) ! 0)
   \<and> 0 < nrows (heap (world_of enc_df) ! 0)
   \<and> getitem (heap (world_of enc_df) ! 0) ''Churn'' = Inr [Num 1, Num 0, Num 0]
   \<and> is_numeric [Num 1, Num 0, Num 0]
   \<and> ''Gender'' \<noteq> ''Churn''
   \<and> getitem (heap (world_of enc_df) ! 0) ''Gender'' = Inr [Str ''F'', Str ''M'', Str ''F'']
   \<and> Null \<notin> set [Str ''F'', Str ''M'', Str ''F'']
   \<and> \<not> truthy None
   \<and> (\<exists>e w'. encoder_helper (world_of enc_df) 0 [''Gender''] None = (Inr e, w')
        \<and> columns (heap w' ! e) = [''Gender'', ''Churn'']
        \<and> getitem (heap w' ! e) ''Gender'' = Inr [Num (1 / 2), Num 0, Num (1 / 2)])"
proof -
  have h1: "0 < length (heap (world_of enc_df))" by (simp add: world_of_def)
  have h2: "wf_df (heap (world_of enc_df) ! 0)"
    by (simp add: world_of_def enc_df_def wf_df_def columns_def nrows_def)
  have h0: "0 < nrows (heap (world_of enc_df) ! 0)"
    by (simp add: world_of_def enc_df_def nrows_def)
  have h3: "getitem (heap (world_of enc_df) ! 0) ''Churn'' = Inr [Num 1, Num 0, Num 0]"
    by (simp add: world_of_def enc_df_def getitem_def)
  have h4: "is_numeric [Num 1, Num 0, Num 0]" by (simp add: is_numeric_def)
  have h6: "\<forall>c\<in>set [''Gender'']. c \<noteq> ''Churn''
         \<and> (\<exists>keys. getitem (heap (world_of enc_df) ! 0) c = Inr keys \<and> Null \<notin> set keys)"
    by (simp add: world_of_def enc_df_def getitem_def)
  have h7: "\<not> truthy None" by (simp add: truthy_def)
  have k: "getitem (heap (world_of enc_df) ! 0) ''Gender'' = Inr [Str ''F'', Str ''M'', Str ''F'']"
    by (simp add: world_of_def enc_df_def getitem_def)
  have m: "map (category_mean [Str ''F'', Str ''M'', Str ''F''] [Num 1, Num 0, Num 0])
             [Str ''F'', Str ''M'', Str ''F''] = [Num (1 / 2), Num 0, Num (1 / 2)]"
    by (simp add: category_mean_def upt_rec)
  have c: "columns (heap (world_of enc_df) ! 0) = [''Gender'', ''Churn'']"
    by (simp add: world_of_def enc_df_def columns_def)
  from encoder_helper_overwrite [OF h1 h2 h0 h3 h4 h6 h7]
  have "\<exists>e w'. encoder_helper (world_of enc_df) 0 [''Gender''] None = (Inr e, w')
        \<and> columns (heap w' ! e) = [''Gender'', ''Churn'']
        \<and> getitem (heap w' ! e) ''Gender'' = Inr [Num (1 / 2), Num 0, Num (1 / 2)]"
    unfolding c using k m by auto
  with h1 h2 h0 h3 h4 h7 k show ?thesis by simp
qed

section \<open>The feature-importance chart\<close>

lemma argsort_mset: "mset (argsort xs) = mset [0..<length xs]"
proof -
  have "mset (argsort xs) = image_mset snd (mset (sort_key fst (zip xs [0..<length xs])))"
    unfolding argsort_def by (simp only: mset_map)
  also have "\<dots> = image_mset snd (mset (zip xs [0..<length xs]))"
    by (simp only: mset_sort)
  also have "\<dots> = mset (map snd (zip xs [0..<length xs]))"
    by (simp only: mset_map)
  also have "map snd (zip xs [0..<length xs]) = [0..<length xs]"
    by (simp add: map_snd_zip)
  finally show ?thesis .
qed

lemma argsort_set: "set (argsort xs) = {0..<length xs}"
  using argsort_mset [of xs] by (metis mset_eq_setD set_upt)

lemma argsort_length: "length (argsort xs) = length xs"
  using argsort_mset [of xs] by (metis mset_eq_length length_upt diff_zero)

lemma argsort_sorted: "sorted (map (\<lambda>i. xs ! i) (argsort xs))"
proof -
  let ?ps = "sort_key fst (zip xs [0..<length xs])"
  have "\<forall>p\<in>set ?ps. xs ! snd p = fst p"
    by (auto simp: set_zip)
  then have "map (\<lambda>i. xs ! i) (argsort xs) = map fst ?ps"
    by (simp add: argsort_def)
  then show ?thesis by simp
qed

lemma column_names_all:
  "\<forall>i\<in>set idx. i < length cols \<Longrightarrow> column_names cols idx = Inr (map (\<lambda>i. cols ! i) idx)"
  by (induction idx) simp_all

lemma zip_nth_mset:
  assumes "length cols = length xs" "mset idx = mset [0..<length xs]"
  shows "mset (zip (map (\<lambda>i. cols ! i) idx) (map (\<lambda>i. xs ! i) idx)) = mset (zip cols xs)"
proof -
  have "zip (map (\<lambda>i. cols ! i) idx) (map (\<lambda>i. xs ! i) idx) = map (\<lambda>i. (cols ! i, xs ! i)) idx"
    by (induction idx) simp_all
  then have "mset (zip (map (\<lambda>i. cols ! i) idx) (map (\<lambda>i. xs ! i) idx))
      = image_mset (\<lambda>i. (cols ! i, xs ! i)) (mset idx)" by simp
  also have "\<dots> = mset (map (\<lambda>i. (cols ! i, xs ! i)) [0..<length xs])"
    using assms(2) by simp
  also have "map (\<lambda>i. (cols ! i, xs ! i)) [0..<length xs] = zip cols xs"
    using assms(1) by (intro nth_equalityI) simp_all
  finally show ?thesis .
qed

text \<open>
  Claim C9. For importances with one value per feature, \<open>feature_importance_plot\<close> draws
  and saves a chart whose bars, from left to right, have non-increasing heights; the bars
  are exactly the features, each with its own importance and labelled with its name.
\<close>

theorem feature_importance_sorted:
  assumes "length (columns features) = length importances"
  shows "\<exists>chart. importance_chart importances features = Inr chart
     \<and> feature_importance_plot en w importances features output_pth
         = savefig en w (output_pth @ ''feature_importances.png'')
             (map (\<lambda>b. (fst b, [Num (snd b)])) chart)
     \<and> sorted_wrt (\<lambda>a b. a \<ge> b) (map snd chart)
     \<and> mset chart = mset (zip (columns features) importances)"
proof -
  let ?idx = "rev (argsort importances)"
  let ?names = "map (\<lambda>i. columns features ! i) ?idx"
  let ?heights = "map (\<lambda>i. importances ! i) ?idx"
  have "\<forall>i\<in>set ?idx. i < length (columns features)"
    using assms by (simp add: argsort_set)
  then have names: "column_names (columns features) ?idx = Inr ?names"
    by (rule column_names_all)
  have chart: "importance_chart importances features = Inr (zip ?names ?heights)"
    using names assms by (simp add: importance_chart_def argsort_length Let_def)
  have "sorted (map (\<lambda>i. importances ! i) (argsort importances))" by (rule argsort_sorted)
  then have "sorted_wrt (\<lambda>a b. a \<ge> b) (rev (map (\<lambda>i. importances ! i) (argsort importances)))"
    by (simp only: sorted_wrt_rev)
  then have desc: "sorted_wrt (\<lambda>a b. a \<ge> b) (map snd (zip ?names ?heights))"
    by (simp add: rev_map)
  have "mset ?idx = mset [0..<length importances]" by (simp add: argsort_mset)
  from zip_nth_mset [OF assms this]
  have all: "mset (zip ?names ?heights) = mset (zip (columns features) importances)" .
  show ?thesis using chart desc all by (simp add: feature_importance_plot_def)
qed

text \<open>Claim C9, witness: three features, plotted in the order of their importances.\<close>

theorem feature_importance_sorted_witness:
  "length (columns three_features) = length [3 / 10, 1 / 2, 1 / 5 :: rat]
   \<and> importance_chart [3 / 10, 1 / 2, 1 / 5] three_features
        = Inr [(''Credit_Limit'', 1 / 2), (''Customer_Age'', 3 / 10), (''Total_Trans_Ct'', 1 / 5)]
   \<and> (\<exists>chart. importance_chart [3 / 10, 1 / 2, 1 / 5] three_features = Inr chart
        \<and> sorted_wrt (\<lambda>a b. a \<ge> b) (map snd chart))"
proof -
  have h: "length (columns three_features) = length [3 / 10, 1 / 2, 1 / 5 :: rat]"
    by (simp add: three_features_def columns_def)
  have r: "importance_chart [3 / 10, 1 / 2, 1 / 5] three_features
        = Inr [(''Credit_Limit'', 1 / 2), (''Customer_Age'', 3 / 10), (''Total_Trans_Ct'', 1 / 5)]"
    by (simp add: importance_chart_def argsort_def columns_def three_features_def upt_rec)
  from feature_importance_sorted [OF h, of quiet_env "world_of three_features" "''./images/results/''"]
  have "\<exists>chart. importance_chart [3 / 10, 1 / 2, 1 / 5] three_features = Inr chart
        \<and> sorted_wrt (\<lambda>a b. a \<ge> b) (map snd chart)" by blast
  with h r show ?thesis by blast
qed

section \<open>The test script\<close>

lemma import_data_log: "log (snd (import_data en w pth)) = log w"
  by (simp add: import_data_def alloc_def split: sum.splits)

lemma savefig_log: "log (snd (savefig en w f d)) = log w"
  by (simp add: savefig_def split: option.splits)

lemma plot_columns_log: "log (snd (plot_columns en w e cs)) = log w"
proof (induction cs arbitrary: w)
  case Nil
  show ?case by simp
next
  case (Cons c cs)
  show ?case
  proof (cases "getitem (heap w ! e) c")
    case (Inl err)
    then show ?thesis by simp
  next
    case (Inr col)
    show ?thesis
    proof (cases "render en (eda_fname c) [(c, col)]")
      case None
      then show ?thesis using Inr Cons.IH [of "w\<lparr>files := eda_fname c # files w\<rparr>"]
        by (simp add: savefig_def)
    next
      case (Some err)
      then show ?thesis using Inr by (simp add: savefig_def)
    qed
  qed
qed

lemma derive_churn_log: "log (snd (derive_churn w e)) = log w"
  by (simp add: derive_churn_def setitem_at_def split: sum.splits)

lemma perform_eda_log: "log (snd (perform_eda en w r)) = log w"
proof -
  let ?e = "length (heap w)"
  let ?w1 = "w\<lparr>heap := heap w @ [heap w ! r]\<rparr>"
  obtain res2 w2 where dc: "derive_churn ?w1 ?e = (res2, w2)" by (cases "derive_churn ?w1 ?e")
  obtain res3 w3 where pc: "plot_columns en w2 ?e columns_to_plot = (res3, w3)"
    by (cases "plot_columns en w2 ?e columns_to_plot")
  obtain res4 w4 where sf: "savefig en w3 ''./images/eda/heatmap.png'' (heap w3 ! ?e) = (res4, w4)"
    by (cases "savefig en w3 ''./images/eda/heatmap.png'' (heap w3 ! ?e)")
  have l2: "log w2 = log w" using derive_churn_log [of ?w1 ?e] dc by simp
  have l3: "log w3 = log w2" using plot_columns_log [of en w2 ?e columns_to_plot] pc by simp
  have l4: "log w4 = log w3"
    using savefig_log [of en w3 "''./images/eda/heatmap.png''" "heap w3 ! ?e"] sf by simp
  show ?thesis using dc pc sf l2 l3 l4 unfolding perform_eda_unfold
    by (cases res2; cases res3; cases res4) simp_all
qed

lemma encoder_loop_log: "log (snd (encoder_loop w d e cats resp)) = log w"
proof (induction cats arbitrary: w)
  case Nil
  show ?case by simp
next
  case (Cons c cs)
  show ?case
  proof (cases "encode_column (heap w ! d) c")
    case (Inl err)
    then show ?thesis by simp
  next
    case (Inr col)
    then show ?thesis using Cons.IH [of "setitem_at w e (target_name c resp) col"]
      by (simp add: setitem_at_def)
  qed
qed

lemma encoder_helper_log: "log (snd (encoder_helper w r cats resp)) = log w"
proof -
  let ?w1 = "w\<lparr>heap := heap w @ [heap w ! r]\<rparr>"
  obtain res w2 where el: "encoder_loop ?w1 r (length (heap w)) cats resp = (res, w2)"
    by (cases "encoder_loop ?w1 r (length (heap w)) cats resp")
  have "log w2 = log w" using encoder_loop_log [of ?w1 r "length (heap w)" cats resp] el by simp
  then show ?thesis using el unfolding encoder_helper_unfold by (cases res) simp_all
qed

lemma train_test_split_seeded:
  "snd (train_test_split en w x y test_size (Some seed)) = w"
  by (simp add: train_test_split_def Let_def)

lemma perform_feature_engineering_log:
  "log (snd (perform_feature_engineering en w r resp)) = log w"
proof -
  obtain res w1 where eh: "encoder_helper w r cat_columns resp = (res, w1)"
    by (cases "encoder_helper w r cat_columns resp")
  have l1: "log w1 = log w" using encoder_helper_log [of w r cat_columns resp] eh by simp
  show ?thesis using eh l1
    by (auto simp: perform_feature_engineering_def train_test_split_seeded split: sum.splits)
qed

text \<open>
  Claim C8. In \<open>test_eda\<close> an exception of \<open>perform_eda\<close> is logged and not raised again:
  the test goes on to its checks of the image files, which alone decide how it ends. In
  \<open>test_perform_feature_engineering\<close> an exception of \<open>perform_feature_engineering\<close> is
  logged and the test ends normally, whatever happened. In \<open>test_import\<close> a
  \<open>FileNotFoundError\<close> of \<open>import_data\<close> is logged and raised again.
\<close>

theorem harness_error_handling:
  "(import_data en w ''./data/bank_data.csv'' = (Inr bank_df, w1)
      \<and> perform_eda en w1 bank_df = (Inl err, w2)
    \<longrightarrow> (\<exists>w'. test_eda en w = (assert_files w' image_files, w')
          \<and> log w' = log w @ [Error ''Testing perform_eda failed - Error type: %s'' [TypeArg err]]))
   \<and> fst (test_perform_feature_engineering en w) = None
   \<and> (import_data en w ''./data/bank_data.csv'' = (Inr bank_df, w1)
      \<and> perform_feature_engineering en w1 bank_df (Some ''Churn'') = (Inl err, w2)
    \<longrightarrow> log (snd (test_perform_feature_engineering en w))
          = log w @ [Error ''Testing perform_feature_engineering failed - Error type: %s''
                       [TypeArg err]])
   \<and> (read_csv en ''./data/bank_data.csv'' = Inl FileNotFoundError
    \<longrightarrow> test_import en w
          = (Some FileNotFoundError,
             w\<lparr>log := log w @ [Error ''Testing import_data: The file was not found'' []]\<rparr>))"
proof (intro conjI impI)
  assume a: "import_data en w ''./data/bank_data.csv'' = (Inr bank_df, w1)
      \<and> perform_eda en w1 bank_df = (Inl err, w2)"
  have "log w2 = log w"
    using a import_data_log [of en w "''./data/bank_data.csv''"] perform_eda_log [of en w1 bank_df]
    by simp
  then show "\<exists>w'. test_eda en w = (assert_files w' image_files, w')
          \<and> log w' = log w @ [Error ''Testing perform_eda failed - Error type: %s'' [TypeArg err]]"
    using a by (simp add: test_eda_def logging_error_def Let_def)
next
  show "fst (test_perform_feature_engineering en w) = None"
    by (simp add: test_perform_feature_engineering_def two_test_level_def split: prod.splits)
next
  assume a: "import_data en w ''./data/bank_data.csv'' = (Inr bank_df, w1)
      \<and> perform_feature_engineering en w1 bank_df (Some ''Churn'') = (Inl err, w2)"
  have "log w2 = log w"
    using a import_data_log [of en w "''./data/bank_data.csv''"]
      perform_feature_engineering_log [of en w1 bank_df "Some ''Churn''"] by simp
  then show "log (snd (test_perform_feature_engineering en w))
          = log w @ [Error ''Testing perform_feature_engineering failed - Error type: %s''
                       [TypeArg err]]"
    using a by (simp add: test_perform_feature_engineering_def two_test_level_def
        try_feature_engineering_def logging_error_def)
next
  assume "read_csv en ''./data/bank_data.csv'' = Inl FileNotFoundError"
  then show "test_import en w
          = (Some FileNotFoundError,
             w\<lparr>log := log w @ [Error ''Testing import_data: The file was not found'' []]\<rparr>)"
    by (simp add: test_import_def import_data_def logging_error_def)
qed

lemma import_enc_run:
  "import_data churn_env stale_world ''./data/bank_data.csv''
     = (Inr 0, stale_world\<lparr>heap := [enc_df]\<rparr>)"
  by (simp add: import_data_def churn_env_def stale_world_def alloc_def)

lemma perform_eda_enc_run:
  "perform_eda churn_env (stale_world\<lparr>heap := [enc_df]\<rparr>) 0
     = (Inl KeyError, stale_world\<lparr>heap := [enc_df, enc_df]\<rparr>)"
  by (simp add: perform_eda_unfold derive_churn_def getitem_def enc_df_def stale_world_def)

lemma feature_engineering_enc_run:
  "perform_feature_engineering churn_env (stale_world\<lparr>heap := [enc_df]\<rparr>) 0 (Some ''Churn'')
     = (Inl KeyError,
        stale_world\<lparr>heap := [enc_df, enc_df @ [(''Gender_Churn'', [Num (1 / 2), Num 0, Num (1 / 2)])]]\<rparr>)"
  by (simp add: perform_feature_engineering_def cat_columns_def enc_eval enc_df_def stale_world_def)

text \<open>
  Claim C8, witness: the data file has no \<open>Attrition_Flag\<close> column, so both calls raise
  \<open>KeyError\<close>; with the images of an earlier run on disk \<open>test_eda\<close> still passes.
\<close>

theorem harness_error_handling_witness:
  "import_data churn_env stale_world ''./data/bank_data.csv''
     = (Inr 0, stale_world\<lparr>heap := [enc_df]\<rparr>)
   \<and> perform_eda churn_env (stale_world\<lparr>heap := [enc_df]\<rparr>) 0
     = (Inl KeyError, stale_world\<lparr>heap := [enc_df, enc_df]\<rparr>)
   \<and> fst (test_eda churn_env stale_world) = None
   \<and> log (snd (test_eda churn_env stale_world))
       = [Error ''Testing perform_eda failed - Error type: %s'' [TypeArg KeyError]]
   \<and> fst (perform_feature_engineering churn_env (stale_world\<lparr>heap := [enc_df]\<rparr>) 0 (Some ''Churn''))
       = Inl KeyError
   \<and> fst (test_perform_feature_engineering churn_env stale_world) = None
   \<and> log (snd (test_perform_feature_engineering churn_env stale_world))
       = [Error ''Testing perform_feature_engineering failed - Error type: %s'' [TypeArg KeyError]]
   \<and> read_csv missing_env ''./data/bank_data.csv'' = Inl FileNotFoundError
   \<and> test_import missing_env stale_world
       = (Some FileNotFoundError,
          stale_world\<lparr>log := [Error ''Testing import_data: The file was not found'' []]\<rparr>)"
proof -
  note h = harness_error_handling [of churn_env stale_world 0 "stale_world\<lparr>heap := [enc_df]\<rparr>"
      KeyError]
  have eda: "\<exists>w'. test_eda churn_env stale_world = (assert_files w' image_files, w')
      \<and> log w' = log stale_world @ [Error ''Testing perform_eda failed - Error type: %s'' [TypeArg KeyError]]"
    using h [of "stale_world\<lparr>heap := [enc_df, enc_df]\<rparr>"] import_enc_run perform_eda_enc_run
    by blast
  then obtain w' where w': "test_eda churn_env stale_world = (assert_files w' image_files, w')"
    "log w' = log stale_world @ [Error ''Testing perform_eda failed - Error type: %s'' [TypeArg KeyError]]"
    by blast
  have "files w' = files stale_world"
    using w'(1) by (auto simp: test_eda_def import_enc_run perform_eda_enc_run logging_error_def Let_def)
  then have "assert_files w' image_files = None"
    by (simp add: image_files_def stale_world_def)
  then have eda1: "fst (test_eda churn_env stale_world) = None" using w'(1) by simp
  have eda2: "log (snd (test_eda churn_env stale_world))
       = [Error ''Testing perform_eda failed - Error type: %s'' [TypeArg KeyError]]"
    using w' by (simp add: stale_world_def)
  have fe: "log (snd (test_perform_feature_engineering churn_env stale_world))
       = [Error ''Testing perform_feature_engineering failed - Error type: %s'' [TypeArg KeyError]]"
    using h [of "stale_world\<lparr>heap := [enc_df, enc_df @ [(''Gender_Churn'', [Num (1 / 2), Num 0, Num (1 / 2)])]]\<rparr>"]
      import_enc_run feature_engineering_enc_run
    by (simp add: stale_world_def)
  have fe0: "fst (test_perform_feature_engineering churn_env stale_world) = None"
    using h by blast
  have m: "read_csv missing_env ''./data/bank_data.csv'' = Inl FileNotFoundError"
    by (simp add: missing_env_def)
  have imp: "test_import missing_env stale_world
       = (Some FileNotFoundError,
          stale_world\<lparr>log := [Error ''Testing import_data: The file was not found'' []]\<rparr>)"
    using harness_error_handling [of missing_env stale_world] m by (simp add: stale_world_def)
  show ?thesis
    using import_enc_run perform_eda_enc_run eda1 eda2 feature_engineering_enc_run fe fe0 m imp
    by simp
qed

section \<open>Feature engineering\<close>

lemma getitem_error: "getitem df k = Inl err \<Longrightarrow> err = KeyError"
  by (auto simp: getitem_def split: option.splits)

lemma getitem_missing: "k \<notin> set (columns df) \<Longrightarrow> getitem df k = Inl KeyError"
  using getitem_Inr_iff [of df k] getitem_error [of df k] by (cases "getitem df k") auto

lemma getitems_error: "getitems df names = Inl err \<Longrightarrow> err = KeyError"
  by (induction names) (auto split: sum.splits dest: getitem_error)

lemma getitems_missing:
  "k \<in> set names \<Longrightarrow> k \<notin> set (columns df) \<Longrightarrow> getitems df names = Inl KeyError"
proof (induction names)
  case Nil
  then show ?case by simp
next
  case (Cons n names)
  show ?case
  proof (cases "getitem df n")
    case (Inl err)
    then show ?thesis using getitem_error [OF Inl] by simp
  next
    case (Inr col)
    then have "n \<in> set (columns df)" using getitem_Inr_iff [of df n] by blast
    then have "k \<in> set names" using Cons.prems by auto
    from Cons.IH [OF this Cons.prems(2)] show ?thesis using Inr by simp
  qed
qed

lemma lookup_loop_error: "lookup_loop groups vals acc = Inl err \<Longrightarrow> err = KeyError"
  by (induction vals arbitrary: acc) (auto simp: loc_def split: option.splits sum.splits)

lemma encode_column_error: "encode_column df c = Inl err \<Longrightarrow> err = KeyError"
  by (auto simp: encode_column_def groupby_mean_def
      split: sum.splits if_splits dest: getitem_error lookup_loop_error)

lemma encoder_loop_error:
  "encoder_loop w d e cats resp = (Some err, w') \<Longrightarrow> err = KeyError"
proof (induction cats arbitrary: w)
  case Nil
  then show ?case by simp
next
  case (Cons c cs)
  show ?case
  proof (cases "encode_column (heap w ! d) c")
    case (Inl err')
    then show ?thesis using Cons.prems encode_column_error [OF Inl] by simp
  next
    case (Inr col)
    then show ?thesis using Cons.prems Cons.IH by simp
  qed
qed

lemma suffix_names:
  "drop 14 keep_cols = map (\<lambda>c. c @ ''_Churn'') cat_columns"
  by (simp add: keep_cols_def cat_columns_def)

lemma target_not_churn_suffix:
  assumes "response \<noteq> Some ''Churn''" "k \<in> set (drop 14 keep_cols)"
  shows "k \<notin> (\<lambda>c. target_name c response) ` set cat_columns"
proof (cases "truthy response")
  case False
  then show ?thesis using assms(2)
    by (auto simp: target_name_def keep_cols_def cat_columns_def)
next
  case True
  then obtain s where s: "response = Some s" "s \<noteq> ''Churn''"
    using assms(1) by (cases response) (auto simp: truthy_def)
  show ?thesis using assms(2) s True
    by (auto simp: target_name_def keep_cols_def cat_columns_def)
qed

lemma setitem_lengths:
  "list_all (\<lambda>c. length (snd c) = n) df \<Longrightarrow> length vals = n \<Longrightarrow>
     list_all (\<lambda>c. length (snd c) = n) (setitem df name vals)"
  by (auto simp: setitem_def list_all_iff)

lemma encoder_loop_lengths:
  "d \<noteq> e \<Longrightarrow> e < length (heap w) \<Longrightarrow> encoder_loop w d e cats resp = (None, w') \<Longrightarrow>
   list_all (\<lambda>c. length (snd c) = n) (heap w ! e) \<Longrightarrow>
   \<forall>c\<in>set cats. \<forall>col. encode_column (heap w ! d) c = Inr col \<longrightarrow> length col = n \<Longrightarrow>
     list_all (\<lambda>c. length (snd c) = n) (heap w' ! e)"
proof (induction cats arbitrary: w)
  case Nil
  then show ?case by simp
next
  case (Cons c cs)
  show ?case
  proof (cases "encode_column (heap w ! d) c")
    case (Inl err)
    then show ?thesis using Cons.prems by simp
  next
    case (Inr col)
    let ?w1 = "setitem_at w e (target_name c resp) col"
    have len: "e < length (heap ?w1)" using Cons.prems(2) by (simp add: setitem_at_def)
    have run: "encoder_loop ?w1 d e cs resp = (None, w')" using Inr Cons.prems by simp
    have h1: "heap ?w1 ! e = setitem (heap w ! e) (target_name c resp) col"
      using Cons.prems(2) by (simp add: setitem_at_def)
    have hd: "heap ?w1 ! d = heap w ! d" using Cons.prems(1) by (simp add: setitem_at_def)
    have "length col = n" using Cons.prems(5) Inr by simp
    then have a: "list_all (\<lambda>c. length (snd c) = n) (heap ?w1 ! e)"
      unfolding h1 using Cons.prems(4) by (intro setitem_lengths)
    have b: "\<forall>c\<in>set cs. \<forall>col. encode_column (heap ?w1 ! d) c = Inr col \<longrightarrow> length col = n"
      unfolding hd using Cons.prems(5) by simp
    from Cons.IH [OF Cons.prems(1) len run a b] show ?thesis .
  qed
qed

lemma getitems_result:
  "set names \<subseteq> set (columns df) \<Longrightarrow>
     \<exists>x. getitems df names = Inr x \<and> columns x = names \<and> set x \<subseteq> set df"
proof (induction names)
  case Nil
  show ?case by (simp add: columns_def)
next
  case (Cons n names)
  then obtain x where x: "getitems df names = Inr x" "columns x = names" "set x \<subseteq> set df"
    by auto
  from Cons.prems obtain col where col: "getitem df n = Inr col"
    using getitem_Inr_iff [of df n] by auto
  then have "(n, col) \<in> set df" by (rule getitem_mem)
  then show ?case using x col by (simp add: columns_def)
qed

lemma columns_iloc: "columns (iloc x idx) = columns x"
  by (simp add: iloc_def columns_def comp_def)

lemma nrows_iloc: "x \<noteq> [] \<Longrightarrow> nrows (iloc x idx) = length idx"
  by (cases x) (simp_all add: iloc_def nrows_def)

lemma n_train_pos: "2 \<le> (n::nat) \<Longrightarrow> 0 < n - (3 * n + 9) div 10"
  by arith

lemma n_test_eq': "nat \<lceil>3 * (of_nat n :: rat) / 10\<rceil> = (3 * n + 9) div 10"
  using n_test_eq [of n] by simp

lemma getitem_Cons:
  "getitem ((n, col) # rest) k = (if k = n then Inr col else getitem rest k)"
  by (simp add: getitem_def)

lemma getitems_getitem:
  "getitems df names = Inr x \<Longrightarrow> k \<in> set names \<Longrightarrow> getitem x k = getitem df k"
proof (induction names arbitrary: x)
  case Nil
  then show ?case by simp
next
  case (Cons n names)
  from Cons.prems(1) obtain col rest where p: "getitem df n = Inr col"
    "getitems df names = Inr rest" "x = (n, col) # rest"
    by (auto split: sum.splits)
  show ?case
  proof (cases "k = n")
    case True
    then show ?thesis using p by (simp add: getitem_Cons)
  next
    case False
    then have "k \<in> set names" using Cons.prems(2) by simp
    from Cons.IH [OF p(2) this] show ?thesis using False p(3) by (simp add: getitem_Cons)
  qed
qed

lemma getitem_iloc:
  "getitem (iloc x idx) k =
     (case getitem x k of Inl err \<Rightarrow> Inl err | Inr col \<Rightarrow> Inr (map (\<lambda>i. col ! i) idx))"
  by (induction x) (auto simp: iloc_def getitem_def)

lemma train_test_split_run:
  assumes "list_all (\<lambda>c. length (snd c) = length y) x" "2 \<le> length y"
    "length (permutation en seed (length y)) = length y"
  shows "train_test_split en w x y (3 / 10) (Some seed) =
     (Inr (iloc x (drop ((3 * length y + 9) div 10) (permutation en seed (length y))),
           iloc x (take ((3 * length y + 9) div 10) (permutation en seed (length y))),
           map (\<lambda>i. y ! i) (drop ((3 * length y + 9) div 10) (permutation en seed (length y))),
           map (\<lambda>i. y ! i) (take ((3 * length y + 9) div 10) (permutation en seed (length y)))),
      w)"
proof -
  let ?n = "length y"
  let ?t = "(3 * ?n + 9) div 10"
  let ?perm = "permutation en seed ?n"
  have pos: "0 < ?n - ?t" using assms(2) by (rule n_train_pos)
  have all: "take (?n - ?t) (drop ?t ?perm) = drop ?t ?perm" using assms(3) by simp
  have "train_test_split en w x y (3 / 10) (Some seed) =
      (Inr (iloc x (take (?n - ?t) (drop ?t ?perm)), iloc x (take ?t ?perm),
            map (\<lambda>i. y ! i) (take (?n - ?t) (drop ?t ?perm)), map (\<lambda>i. y ! i) (take ?t ?perm)), w)"
    using assms(1) pos by (simp add: train_test_split_def Let_def n_test_eq')
  then show ?thesis unfolding all .
qed

lemma churn_not_target: "''Churn'' \<notin> (\<lambda>c. target_name c response) ` set cat_columns"
  by (cases response) (auto simp: target_name_def cat_columns_def truthy_def)

lemma wf_lengths: "wf_df df \<Longrightarrow> list_all (\<lambda>c. length (snd c) = nrows df) df"
  by (simp add: wf_df_def)

lemma feature_engineering_returns:
  assumes valid: "r < length (heap w)"
    and wf: "wf_df (heap w ! r)"
    and churn: "getitem (heap w ! r) ''Churn'' = Inr churn" "is_numeric churn"
    and cats: "\<forall>c\<in>set cat_columns. \<exists>keys. getitem (heap w ! r) c = Inr keys \<and> Null \<notin> set keys"
    and keep: "set keep_cols \<subseteq>
        set (columns (heap w ! r)) \<union> (\<lambda>c. target_name c response) ` set cat_columns"
    and rows: "2 \<le> length churn"
    and perm: "length (permutation en 42 (length churn)) = length churn"
  shows "\<exists>X w'.
     perform_feature_engineering en w r response =
       (Inr (iloc X (drop ((3 * length churn + 9) div 10) (permutation en 42 (length churn))),
             iloc X (take ((3 * length churn + 9) div 10) (permutation en 42 (length churn))),
             map (\<lambda>i. churn ! i)
               (drop ((3 * length churn + 9) div 10) (permutation en 42 (length churn))),
             map (\<lambda>i. churn ! i)
               (take ((3 * length churn + 9) div 10) (permutation en 42 (length churn)))),
        w')
     \<and> columns X = keep_cols
     \<and> (\<forall>k\<in>set keep_cols. k \<notin> (\<lambda>c. target_name c response) ` set cat_columns
           \<longrightarrow> getitem X k = getitem (heap w ! r) k)
     \<and> (\<forall>c\<in>set cat_columns. target_name c response \<in> set keep_cols
           \<longrightarrow> (\<exists>keys. getitem (heap w ! r) c = Inr keys
                 \<and> getitem X (target_name c response)
                     = Inr (map (category_mean keys churn) keys)))"
proof -
  let ?df = "heap w ! r"
  let ?e = "length (heap w)"
  let ?w1 = "w\<lparr>heap := heap w @ [?df]\<rparr>"
  let ?n = "length churn"
  have ne: "r \<noteq> ?e" using valid by simp
  have src: "heap ?w1 ! r = ?df" using valid by (simp add: nth_append)
  have dst: "heap ?w1 ! ?e = ?df" by simp
  have len: "?e < length (heap ?w1)" by simp
  have n: "nrows ?df = ?n" using getitem_length [OF wf churn(1)] by simp
  have enc: "\<forall>c\<in>set cat_columns. \<exists>keys. getitem ?df c = Inr keys
      \<and> encode_column ?df c = Inr (map (category_mean keys churn) keys)"
  proof
    fix c assume c: "c \<in> set cat_columns"
    with cats obtain keys where k: "getitem ?df c = Inr keys" "Null \<notin> set keys" by blast
    have "c \<noteq> ''Churn''" using c by (auto simp: cat_columns_def)
    from encode_column_spec [OF wf k(1) this churn k(2)] k(1)
    show "\<exists>keys. getitem ?df c = Inr keys
      \<and> encode_column ?df c = Inr (map (category_mean keys churn) keys)" by blast
  qed
  then have "\<forall>c\<in>set cat_columns. \<exists>col. encode_column (heap ?w1 ! r) c = Inr col"
    unfolding src by blast
  from encoder_loop_returns [OF ne this]
  obtain w2 where run: "encoder_loop ?w1 r ?e cat_columns response = (None, w2)" by blast
  have eh: "encoder_helper w r cat_columns response = (Inr ?e, w2)"
    using run by (simp add: encoder_helper_unfold)
  have colset: "set (columns (heap w2 ! ?e)) =
      set (columns ?df) \<union> (\<lambda>c. target_name c response) ` set cat_columns"
    using encoder_loop_columns_set [OF len run] by simp
  note vals = encoder_loop_values [OF ne len run, unfolded src dst]
  have churn2: "getitem (heap w2 ! ?e) ''Churn'' = Inr churn"
    using vals churn_not_target [of response] churn(1) by simp
  have enclen: "\<forall>c\<in>set cat_columns. \<forall>col. encode_column (heap ?w1 ! r) c = Inr col
      \<longrightarrow> length col = ?n"
  proof (intro ballI allI impI)
    fix c col assume c: "c \<in> set cat_columns" and col: "encode_column (heap ?w1 ! r) c = Inr col"
    from enc c obtain keys where k: "getitem ?df c = Inr keys"
      "encode_column ?df c = Inr (map (category_mean keys churn) keys)" by blast
    have "length keys = ?n" using getitem_length [OF wf k(1)] n by simp
    then show "length col = ?n" using col k(2) unfolding src by auto
  qed
  have "list_all (\<lambda>c. length (snd c) = ?n) (heap ?w1 ! ?e)"
    unfolding dst using wf_lengths [OF wf] n by simp
  from encoder_loop_lengths [OF ne len run this enclen]
  have lens: "list_all (\<lambda>c. length (snd c) = ?n) (heap w2 ! ?e)" .
  have "set keep_cols \<subseteq> set (columns (heap w2 ! ?e))" using keep colset by simp
  from getitems_result [OF this]
  obtain x where x: "getitems (heap w2 ! ?e) keep_cols = Inr x" "columns x = keep_cols"
    "set x \<subseteq> set (heap w2 ! ?e)" by blast
  have xl: "list_all (\<lambda>c. length (snd c) = ?n) x"
    using lens x(3) by (auto simp: list_all_iff)
  have res: "perform_feature_engineering en w r response =
       (Inr (iloc x (drop ((3 * ?n + 9) div 10) (permutation en 42 ?n)),
             iloc x (take ((3 * ?n + 9) div 10) (permutation en 42 ?n)),
             map (\<lambda>i. churn ! i) (drop ((3 * ?n + 9) div 10) (permutation en 42 ?n)),
             map (\<lambda>i. churn ! i) (take ((3 * ?n + 9) div 10) (permutation en 42 ?n))),
        w2)"
    using eh churn2 x(1) train_test_split_run [OF xl rows perm, of w2]
    by (simp add: perform_feature_engineering_def)
  have raw: "\<forall>k\<in>set keep_cols. k \<notin> (\<lambda>c. target_name c response) ` set cat_columns
      \<longrightarrow> getitem x k = getitem ?df k"
    using getitems_getitem [OF x(1)] vals by simp
  have encd: "\<forall>c\<in>set cat_columns. target_name c response \<in> set keep_cols
      \<longrightarrow> (\<exists>keys. getitem ?df c = Inr keys
            \<and> getitem x (target_name c response) = Inr (map (category_mean keys churn) keys))"
  proof (intro ballI impI)
    fix c assume c: "c \<in> set cat_columns" and t: "target_name c response \<in> set keep_cols"
    from enc c obtain keys where k: "getitem ?df c = Inr keys"
      "encode_column ?df c = Inr (map (category_mean keys churn) keys)" by blast
    have "getitem x (target_name c response) = getitem (heap w2 ! ?e) (target_name c response)"
      using getitems_getitem [OF x(1) t] .
    also have "\<dots> = encode_column ?df c" using vals c by simp
    finally show "\<exists>keys. getitem ?df c = Inr keys
        \<and> getitem x (target_name c response) = Inr (map (category_mean keys churn) keys)"
      using k by auto
  qed
  from res x(2) raw encd show ?thesis by blast
qed

lemma encoder_loop_same:
  "d \<noteq> e \<Longrightarrow> d' \<noteq> e' \<Longrightarrow> e < length (heap w) \<Longrightarrow> e' < length (heap v) \<Longrightarrow>
   heap w ! d = heap v ! d' \<Longrightarrow> heap w ! e = heap v ! e' \<Longrightarrow>
     fst (encoder_loop w d e cats resp) = fst (encoder_loop v d' e' cats resp)
     \<and> heap (snd (encoder_loop w d e cats resp)) ! e
         = heap (snd (encoder_loop v d' e' cats resp)) ! e'"
proof (induction cats arbitrary: w v)
  case Nil
  then show ?case by simp
next
  case (Cons c cs)
  show ?case
  proof (cases "encode_column (heap w ! d) c")
    case (Inl err)
    then show ?thesis using Cons.prems by simp
  next
    case (Inr col)
    let ?w1 = "setitem_at w e (target_name c resp) col"
    let ?v1 = "setitem_at v e' (target_name c resp) col"
    have a: "e < length (heap ?w1)" "e' < length (heap ?v1)"
      using Cons.prems(3,4) by (simp_all add: setitem_at_def)
    have b: "heap ?w1 ! d = heap ?v1 ! d'"
      using Cons.prems(1,2,5) by (simp add: setitem_at_def)
    have c: "heap ?w1 ! e = heap ?v1 ! e'"
      using Cons.prems(3,4,6) by (simp add: setitem_at_def)
    from Cons.IH [OF Cons.prems(1,2) a b c] show ?thesis
      using Inr Cons.prems(5) by simp
  qed
qed

lemma train_test_split_seeded_result:
  "fst (train_test_split en w x y t (Some seed)) = fst (train_test_split en v x y t (Some seed))"
  by (simp add: train_test_split_def Let_def)

lemma feature_engineering_same:
  assumes "r < length (heap w)" "r' < length (heap v)" "heap w ! r = heap v ! r'"
  shows "fst (perform_feature_engineering en w r response)
     = fst (perform_feature_engineering en v r' response)"
proof -
  let ?e = "length (heap w)" and ?e' = "length (heap v)"
  let ?w1 = "w\<lparr>heap := heap w @ [heap w ! r]\<rparr>"
  let ?v1 = "v\<lparr>heap := heap v @ [heap v ! r']\<rparr>"
  have "r \<noteq> ?e" "r' \<noteq> ?e'" "?e < length (heap ?w1)" "?e' < length (heap ?v1)"
    "heap ?w1 ! r = heap ?v1 ! r'" "heap ?w1 ! ?e = heap ?v1 ! ?e'"
    using assms by (simp_all add: nth_append)
  from encoder_loop_same [OF this, of cat_columns response]
  have same: "fst (encoder_loop ?w1 r ?e cat_columns response)
        = fst (encoder_loop ?v1 r' ?e' cat_columns response)"
    "heap (snd (encoder_loop ?w1 r ?e cat_columns response)) ! ?e
        = heap (snd (encoder_loop ?v1 r' ?e' cat_columns response)) ! ?e'" by simp_all
  obtain res w2 where a: "encoder_loop ?w1 r ?e cat_columns response = (res, w2)"
    by (cases "encoder_loop ?w1 r ?e cat_columns response")
  obtain res' v2 where b: "encoder_loop ?v1 r' ?e' cat_columns response = (res', v2)"
    by (cases "encoder_loop ?v1 r' ?e' cat_columns response")
  have eq: "res = res'" "heap w2 ! ?e = heap v2 ! ?e'" using same a b by simp_all
  show ?thesis
    using a b eq train_test_split_seeded_result [of en w2 _ _ "3 / 10" 42 v2]
    by (cases res')
      (auto simp: perform_feature_engineering_def encoder_helper_unfold split: sum.splits)
qed

lemma raw_not_target:
  "k \<in> set (take 14 keep_cols) \<Longrightarrow>
     k \<notin> (\<lambda>c. target_name c (Some ''Churn'')) ` set cat_columns"
  by (auto simp: keep_cols_def cat_columns_def target_name_def truthy_def)

lemma split_three:
  assumes "test @ train = [2, 1, 0 :: nat]" "length test = 1"
  shows "test = [2] \<and> train = [1, 0]"
proof -
  from assms(2) obtain a where a: "test = [a]" by (cases test) auto
  with assms(1) show ?thesis by simp
qed

lemma keep_cols_parts:
  "length keep_cols = 19 \<and> length (take 14 keep_cols) = 14 \<and> length cat_columns = 5
   \<and> keep_cols = take 14 keep_cols @ map (\<lambda>c. c @ ''_Churn'') cat_columns"
  by (simp add: keep_cols_def cat_columns_def)

lemma customers_facts:
  "wf_df customers"
  "getitem customers ''Churn'' = Inr [Num 0, Num 1, Num 0]"
  "\<forall>c\<in>set cat_columns. \<exists>keys. getitem customers c = Inr keys \<and> Null \<notin> set keys"
  "set (take 14 keep_cols) \<subseteq> set (columns customers)"
  "nrows customers = 3"
  by (simp_all add: wf_df_def columns_def nrows_def customers_def customers_raw_def getitem_def
      cat_columns_def keep_cols_def)

lemma customers_encoded_facts:
  "wf_df customers_encoded"
  "getitem customers_encoded ''Churn'' = Inr [Num 0, Num 1, Num 0]"
  "\<forall>c\<in>set cat_columns. \<exists>keys. getitem customers_encoded c = Inr keys \<and> Null \<notin> set keys"
  "set keep_cols \<subseteq> set (columns customers_encoded)"
  by (simp_all add: wf_df_def columns_def nrows_def customers_encoded_def customers_def
      customers_raw_def getitem_def cat_columns_def keep_cols_def)

text \<open>
  Claim C5, counterexample: the table of the data file has an \<open>Attrition_Flag\<close> column but
  no \<open>Churn\<close> column, and \<open>perform_feature_engineering\<close> raises \<open>KeyError\<close> on it.
\<close>

theorem no_churn_counterexample:
  "''Attrition_Flag'' \<in> set (columns customers_raw)
   \<and> fst (perform_feature_engineering quiet_env (world_of customers_raw) 0 (Some ''Churn''))
       = Inl KeyError"
  by (simp add: perform_feature_engineering_def encoder_helper_unfold cat_columns_def
      encode_column_def groupby_mean_def getitem_def columns_def customers_raw_def world_of_def)

text \<open>
  Claim C5, as the code has it. Let the table be well formed with at least two rows, a
  numeric \<open>Churn\<close> column, the five categorical columns without missing values and the
  fourteen raw columns, and let the library's permutation for seed 42 be a permutation of
  the row positions. With the response name \<open>Churn\<close>, \<open>perform_feature_engineering\<close>
  returns a split of a feature matrix \<open>X\<close> and of the \<open>Churn\<close> column:
  \<^item> \<open>X\<close> has exactly the nineteen columns of \<open>keep_cols\<close>; its fourteen raw columns are
    those of the input, and each of its five columns \<open><category>_Churn\<close> holds in every
    row the mean of \<open>Churn\<close> over the rows sharing the row's category value;
  \<^item> the test rows are the first \<open>ceil(0.3 * n)\<close> positions of the permutation and the
    train rows the remaining ones, so that every row of the table is in exactly one of
    the two parts, and the share of the test part is at least 0.3 and exceeds it by less
    than \<open>1 / n\<close>;
  \<^item> the four results are the rows of \<open>X\<close> and the values of \<open>Churn\<close> at the train and at
    the test positions;
  \<^item> the split depends on the table alone: a run in any other world (other objects on the
    heap, other files, another state of the global random generator) on a table with the
    same contents returns the same four parts.
\<close>

theorem feature_engineering_split:
  assumes valid: "r < length (heap w)"
    and wf: "wf_df (heap w ! r)"
    and churn: "getitem (heap w ! r) ''Churn'' = Inr churn" "is_numeric churn"
    and cats: "\<forall>c\<in>set cat_columns. \<exists>keys. getitem (heap w ! r) c = Inr keys \<and> Null \<notin> set keys"
    and raw: "set (take 14 keep_cols) \<subseteq> set (columns (heap w ! r))"
    and rows: "2 \<le> nrows (heap w ! r)"
    and perm: "mset (permutation en 42 (nrows (heap w ! r))) = mset [0..<nrows (heap w ! r)]"
  shows "\<exists>X train test w'.
     perform_feature_engineering en w r (Some ''Churn'')
       = (Inr (iloc X train, iloc X test,
               map (\<lambda>i. churn ! i) train, map (\<lambda>i. churn ! i) test), w')
     \<and> columns X = keep_cols
     \<and> length keep_cols = 19
     \<and> keep_cols = take 14 keep_cols @ map (\<lambda>c. c @ ''_Churn'') cat_columns
     \<and> (\<forall>k\<in>set (take 14 keep_cols). getitem X k = getitem (heap w ! r) k)
     \<and> (\<forall>c\<in>set cat_columns. \<exists>keys. getitem (heap w ! r) c = Inr keys
           \<and> getitem X (c @ ''_Churn'') = Inr (map (category_mean keys churn) keys))
     \<and> test @ train = permutation en 42 (nrows (heap w ! r))
     \<and> mset (test @ train) = mset [0..<nrows (heap w ! r)]
     \<and> length test = (3 * nrows (heap w ! r) + 9) div 10
     \<and> length train + length test = nrows (heap w ! r)
     \<and> 3 * nrows (heap w ! r) \<le> 10 * length test
     \<and> 10 * length test < 3 * nrows (heap w ! r) + 10
     \<and> nrows (iloc X train) = length train \<and> nrows (iloc X test) = length test
     \<and> (\<forall>v r'. r' < length (heap v) \<and> heap v ! r' = heap w ! r \<longrightarrow>
           fst (perform_feature_engineering en v r' (Some ''Churn''))
             = Inr (iloc X train, iloc X test,
                    map (\<lambda>i. churn ! i) train, map (\<lambda>i. churn ! i) test))"
proof -
  let ?df = "heap w ! r"
  let ?n = "nrows ?df"
  let ?perm = "permutation en 42 ?n"
  let ?t = "(3 * ?n + 9) div 10"
  let ?train = "drop ?t ?perm" and ?test = "take ?t ?perm"
  have n: "length churn = ?n" using getitem_length [OF wf churn(1)] .
  have tn: "\<And>c. target_name c (Some ''Churn'') = c @ ''_Churn''"
    by (simp add: target_name_def truthy_def)
  have parts: "length keep_cols = 19"
    "keep_cols = take 14 keep_cols @ map (\<lambda>c. c @ ''_Churn'') cat_columns"
    using keep_cols_parts by blast+
  have ks: "set keep_cols = set (take 14 keep_cols) \<union> set (map (\<lambda>c. c @ ''_Churn'') cat_columns)"
    using parts(2) by (metis set_append)
  then have keep: "set keep_cols \<subseteq>
      set (columns ?df) \<union> (\<lambda>c. target_name c (Some ''Churn'')) ` set cat_columns"
    using raw by (auto simp: tn)
  have rows': "2 \<le> length churn" using rows n by simp
  have plen: "length ?perm = ?n"
    using mset_eq_length [OF perm] by simp
  then have perm': "length (permutation en 42 (length churn)) = length churn" using n by simp
  from feature_engineering_returns [OF valid wf churn cats keep rows' perm', unfolded n]
  obtain X w' where res:
    "perform_feature_engineering en w r (Some ''Churn'')
       = (Inr (iloc X ?train, iloc X ?test,
               map (\<lambda>i. churn ! i) ?train, map (\<lambda>i. churn ! i) ?test), w')"
    "columns X = keep_cols"
    "\<forall>k\<in>set keep_cols. k \<notin> (\<lambda>c. target_name c (Some ''Churn'')) ` set cat_columns
        \<longrightarrow> getitem X k = getitem ?df k"
    "\<forall>c\<in>set cat_columns. target_name c (Some ''Churn'') \<in> set keep_cols
        \<longrightarrow> (\<exists>keys. getitem ?df c = Inr keys
              \<and> getitem X (target_name c (Some ''Churn''))
                  = Inr (map (category_mean keys churn) keys))"
    by blast
  have rawv: "\<forall>k\<in>set (take 14 keep_cols). getitem X k = getitem ?df k"
    using res(3) raw_not_target ks by blast
  have encv: "\<forall>c\<in>set cat_columns. \<exists>keys. getitem ?df c = Inr keys
      \<and> getitem X (c @ ''_Churn'') = Inr (map (category_mean keys churn) keys)"
  proof
    fix c assume c: "c \<in> set cat_columns"
    then have "c @ ''_Churn'' \<in> set keep_cols" using ks by simp
    with res(4) c show "\<exists>keys. getitem ?df c = Inr keys
        \<and> getitem X (c @ ''_Churn'') = Inr (map (category_mean keys churn) keys)"
      unfolding tn by blast
  qed
  have tle: "?t \<le> ?n" using rows by arith
  have cover: "?test @ ?train = ?perm" by simp
  have cover': "mset (?test @ ?train) = mset [0..<?n]" unfolding cover by (rule perm)
  have lt: "length ?test = ?t" using plen tle by simp
  have ltr: "length ?train + length ?test = ?n" using plen tle by simp
  have approx: "3 * ?n \<le> 10 * length ?test" "10 * length ?test < 3 * ?n + 10"
    unfolding lt by arith+
  have xne: "X \<noteq> []" using res(2) by (auto simp: keep_cols_def columns_def)
  have nr: "nrows (iloc X ?train) = length ?train" "nrows (iloc X ?test) = length ?test"
    by (rule nrows_iloc [OF xne])+
  have same: "\<forall>v r'. r' < length (heap v) \<and> heap v ! r' = ?df \<longrightarrow>
      fst (perform_feature_engineering en v r' (Some ''Churn''))
        = Inr (iloc X ?train, iloc X ?test,
               map (\<lambda>i. churn ! i) ?train, map (\<lambda>i. churn ! i) ?test)"
  proof (intro allI impI)
    fix v :: world and r' assume a: "r' < length (heap v) \<and> heap v ! r' = ?df"
    then have "fst (perform_feature_engineering en v r' (Some ''Churn''))
        = fst (perform_feature_engineering en w r (Some ''Churn''))"
      using feature_engineering_same [of r' v r w en "Some ''Churn''"] valid by simp
    then show "fst (perform_feature_engineering en v r' (Some ''Churn''))
        = Inr (iloc X ?train, iloc X ?test,
               map (\<lambda>i. churn ! i) ?train, map (\<lambda>i. churn ! i) ?test)"
      using res(1) by simp
  qed
  have body: "perform_feature_engineering en w r (Some ''Churn'')
       = (Inr (iloc X ?train, iloc X ?test,
               map (\<lambda>i. churn ! i) ?train, map (\<lambda>i. churn ! i) ?test), w')
     \<and> columns X = keep_cols
     \<and> length keep_cols = 19
     \<and> keep_cols = take 14 keep_cols @ map (\<lambda>c. c @ ''_Churn'') cat_columns
     \<and> (\<forall>k\<in>set (take 14 keep_cols). getitem X k = getitem ?df k)
     \<and> (\<forall>c\<in>set cat_columns. \<exists>keys. getitem ?df c = Inr keys
           \<and> getitem X (c @ ''_Churn'') = Inr (map (category_mean keys churn) keys))
     \<and> ?test @ ?train = ?perm
     \<and> mset (?test @ ?train) = mset [0..<?n]
     \<and> length ?test = ?t
     \<and> length ?train + length ?test = ?n
     \<and> 3 * ?n \<le> 10 * length ?test
     \<and> 10 * length ?test < 3 * ?n + 10
     \<and> nrows (iloc X ?train) = length ?train \<and> nrows (iloc X ?test) = length ?test
     \<and> (\<forall>v r'. r' < length (heap v) \<and> heap v ! r' = ?df \<longrightarrow>
           fst (perform_feature_engineering en v r' (Some ''Churn''))
             = Inr (iloc X ?train, iloc X ?test,
                    map (\<lambda>i. churn ! i) ?train, map (\<lambda>i. churn ! i) ?test))"
    using res(1,2) parts rawv encv cover cover' lt ltr approx nr same by (intro conjI)
  show ?thesis
    by (rule exI [of _ X], rule exI [of _ ?train], rule exI [of _ ?test], rule exI [of _ w'],
        rule body)
qed

text \<open>
  Claim C5, witness: the three example customers, with the permutation 2, 1, 0. The test
  part is the last customer, the train part the second and the first, in that order.
\<close>

theorem feature_engineering_split_witness:
  "0 < length (heap (world_of customers))
   \<and> wf_df (heap (world_of customers) ! 0)
   \<and> getitem (heap (world_of customers) ! 0) ''Churn'' = Inr [Num 0, Num 1, Num 0]
   \<and> is_numeric [Num 0, Num 1, Num 0]
   \<and> set (take 14 keep_cols) \<subseteq> set (columns (heap (world_of customers) ! 0))
   \<and> 2 \<le> nrows (heap (world_of customers) ! 0)
   \<and> mset (permutation quiet_env 42 (nrows (heap (world_of customers) ! 0)))
       = mset [0..<nrows (heap (world_of customers) ! 0)]
   \<and> (\<exists>x_train x_test w'.
        perform_feature_engineering quiet_env (world_of customers) 0 (Some ''Churn'')
          = (Inr (x_train, x_test, [Num 1, Num 0], [Num 0]), w')
        \<and> columns x_train = keep_cols \<and> columns x_test = keep_cols
        \<and> getitem x_train ''Customer_Age'' = Inr [Num 49, Num 45]
        \<and> getitem x_test ''Customer_Age'' = Inr [Num 51]
        \<and> getitem x_train ''Gender_Churn'' = Inr [Num 1, Num 0]
        \<and> getitem x_test ''Gender_Churn'' = Inr [Num 0])"
proof -
  have hp: "heap (world_of customers) ! 0 = customers" by (simp add: world_of_def)
  have h1: "0 < length (heap (world_of customers))" by (simp add: world_of_def)
  have h2: "wf_df (heap (world_of customers) ! 0)" unfolding hp by (rule customers_facts)
  have h3: "getitem (heap (world_of customers) ! 0) ''Churn'' = Inr [Num 0, Num 1, Num 0]"
    unfolding hp by (rule customers_facts)
  have h4: "is_numeric [Num 0, Num 1, Num 0]" by (simp add: is_numeric_def)
  have h5: "\<forall>c\<in>set cat_columns. \<exists>keys. getitem (heap (world_of customers) ! 0) c = Inr keys
      \<and> Null \<notin> set keys" unfolding hp by (rule customers_facts)
  have h6: "set (take 14 keep_cols) \<subseteq> set (columns (heap (world_of customers) ! 0))"
    unfolding hp by (rule customers_facts)
  have n: "nrows (heap (world_of customers) ! 0) = 3" unfolding hp by (rule customers_facts)
  have h7: "2 \<le> nrows (heap (world_of customers) ! 0)" unfolding n by simp
  have h8: "mset (permutation quiet_env 42 (nrows (heap (world_of customers) ! 0)))
       = mset [0..<nrows (heap (world_of customers) ! 0)]"
    by (simp add: quiet_env_def)
  have p: "permutation quiet_env 42 3 = [2, 1, 0]" by (simp add: quiet_env_def upt_rec)
  from feature_engineering_split [OF h1 h2 h3 h4 h5 h6 h7 h8, unfolded hp customers_facts(5) p]
  obtain X train test w' where res:
    "perform_feature_engineering quiet_env (world_of customers) 0 (Some ''Churn'')
       = (Inr (iloc X train, iloc X test,
               map (\<lambda>i. [Num 0, Num 1, Num 0] ! i) train,
               map (\<lambda>i. [Num 0, Num 1, Num 0] ! i) test), w')"
    "columns X = keep_cols"
    "\<forall>k\<in>set (take 14 keep_cols). getitem X k = getitem customers k"
    "\<forall>c\<in>set cat_columns. \<exists>keys. getitem customers c = Inr keys
        \<and> getitem X (c @ ''_Churn'') = Inr (map (category_mean keys [Num 0, Num 1, Num 0]) keys)"
    "test @ train = [2, 1, 0]"
    "length test = (3 * 3 + 9) div 10"
    by blast
  have "length test = 1" using res(6) by simp
  from split_three [OF res(5) this] have tt: "test = [2]" "train = [1, 0]" by simp_all
  have "''Customer_Age'' \<in> set (take 14 keep_cols)" by (simp add: keep_cols_def)
  with res(3) have "getitem X ''Customer_Age'' = getitem customers ''Customer_Age''" by blast
  then have age: "getitem X ''Customer_Age'' = Inr [Num 45, Num 49, Num 51]"
    by (simp add: customers_def customers_raw_def getitem_def)
  have "''Gender'' \<in> set cat_columns" by (simp add: cat_columns_def)
  with res(4) obtain keys where k: "getitem customers ''Gender'' = Inr keys"
    "getitem X (''Gender'' @ ''_Churn'')
       = Inr (map (category_mean keys [Num 0, Num 1, Num 0]) keys)" by blast
  have "keys = [Str ''M'', Str ''F'', Str ''M'']"
    using k(1) by (simp add: customers_def customers_raw_def getitem_def)
  then have gen: "getitem X ''Gender_Churn'' = Inr [Num 0, Num 1, Num 0]"
    using k(2) by (simp add: category_mean_def upt_rec)
  have body: "perform_feature_engineering quiet_env (world_of customers) 0 (Some ''Churn'')
          = (Inr (iloc X train, iloc X test, [Num 1, Num 0], [Num 0]), w')
        \<and> columns (iloc X train) = keep_cols \<and> columns (iloc X test) = keep_cols
        \<and> getitem (iloc X train) ''Customer_Age'' = Inr [Num 49, Num 45]
        \<and> getitem (iloc X test) ''Customer_Age'' = Inr [Num 51]
        \<and> getitem (iloc X train) ''Gender_Churn'' = Inr [Num 1, Num 0]
        \<and> getitem (iloc X test) ''Gender_Churn'' = Inr [Num 0]"
    using res(1,2) age gen unfolding tt by (simp add: columns_iloc getitem_iloc)
  have "\<exists>x_train x_test w'.
        perform_feature_engineering quiet_env (world_of customers) 0 (Some ''Churn'')
          = (Inr (x_train, x_test, [Num 1, Num 0], [Num 0]), w')
        \<and> columns x_train = keep_cols \<and> columns x_test = keep_cols
        \<and> getitem x_train ''Customer_Age'' = Inr [Num 49, Num 45]
        \<and> getitem x_test ''Customer_Age'' = Inr [Num 51]
        \<and> getitem x_train ''Gender_Churn'' = Inr [Num 1, Num 0]
        \<and> getitem x_test ''Gender_Churn'' = Inr [Num 0]"
    by (rule exI [of _ "iloc X train"], rule exI [of _ "iloc X test"], rule exI [of _ w'],
        rule body)
  with h1 h2 h3 h4 h6 h7 h8 show ?thesis by (intro conjI)
qed

text \<open>
  Claim C10, counterexample: the table already holds the five columns
  \<open><category>_Churn\<close>; with no response name \<open>perform_feature_engineering\<close> returns a
  split of the nineteen columns.
\<close>

theorem preencoded_counterexample:
  "\<not> isl (fst (perform_feature_engineering quiet_env (world_of customers_encoded) 0 None))
   \<and> columns (fst (projr (fst (perform_feature_engineering quiet_env (world_of customers_encoded)
         0 None)))) = keep_cols"
proof -
  have hp: "heap (world_of customers_encoded) ! 0 = customers_encoded" by (simp add: world_of_def)
  have h1: "0 < length (heap (world_of customers_encoded))" by (simp add: world_of_def)
  have h2: "wf_df (heap (world_of customers_encoded) ! 0)"
    unfolding hp by (rule customers_encoded_facts)
  have h3: "getitem (heap (world_of customers_encoded) ! 0) ''Churn'' = Inr [Num 0, Num 1, Num 0]"
    unfolding hp by (rule customers_encoded_facts)
  have h4: "is_numeric [Num 0, Num 1, Num 0]" by (simp add: is_numeric_def)
  have h5: "\<forall>c\<in>set cat_columns. \<exists>keys. getitem (heap (world_of customers_encoded) ! 0) c = Inr keys
      \<and> Null \<notin> set keys" unfolding hp by (rule customers_encoded_facts)
  have h6: "set keep_cols \<subseteq> set (columns (heap (world_of customers_encoded) ! 0))
      \<union> (\<lambda>c. target_name c None) ` set cat_columns"
    unfolding hp using customers_encoded_facts(4) by blast
  have h7: "2 \<le> length [Num 0, Num 1, Num 0 :: cell]" by simp
  have h8: "length (permutation quiet_env 42 (length [Num 0, Num 1, Num 0 :: cell]))
      = length [Num 0, Num 1, Num 0 :: cell]" by (simp add: quiet_env_def)
  from feature_engineering_returns [OF h1 h2 h3 h4 h5 h6 h7 h8]
  show ?thesis by (auto simp: columns_iloc)
qed

text \<open>
  Claim C10, as the code has it. For every response name other than \<open>Churn\<close> (\<open>None\<close>
  included) and every table that lacks at least one of the five columns
  \<open>Gender_Churn\<close>, \<open>Education_Level_Churn\<close>, \<open>Marital_Status_Churn\<close>,
  \<open>Income_Category_Churn\<close>, \<open>Card_Category_Churn\<close>, \<open>perform_feature_engineering\<close>
  raises \<open>KeyError\<close>: the encoder adds no column of that name, and the selection of
  \<open>keep_cols\<close> asks for it.
\<close>

theorem other_response_fails:
  assumes "response \<noteq> Some ''Churn''"
    "k \<in> set (drop 14 keep_cols)" "k \<notin> set (columns (heap w ! r))"
  shows "fst (perform_feature_engineering en w r response) = Inl KeyError"
proof -
  let ?e = "length (heap w)"
  let ?w1 = "w\<lparr>heap := heap w @ [heap w ! r]\<rparr>"
  obtain res w2 where run: "encoder_loop ?w1 r ?e cat_columns response = (res, w2)"
    by (cases "encoder_loop ?w1 r ?e cat_columns response")
  show ?thesis
  proof (cases res)
    case (Some err)
    then have "err = KeyError" using encoder_loop_error run by blast
    then show ?thesis using run Some
      by (simp add: perform_feature_engineering_def encoder_helper_unfold)
  next
    case None
    have "set (columns (heap w2 ! ?e)) =
        set (columns (heap ?w1 ! ?e)) \<union> (\<lambda>c. target_name c response) ` set cat_columns"
      using run None by (intro encoder_loop_columns_set) simp_all
    then have "k \<notin> set (columns (heap w2 ! ?e))"
      using assms(3) target_not_churn_suffix [OF assms(1,2)] by simp
    moreover have "k \<in> set keep_cols" using assms(2) by (rule in_set_dropD)
    ultimately have sel: "getitems (heap w2 ! ?e) keep_cols = Inl KeyError"
      by (rule getitems_missing [rotated])
    show ?thesis
    proof (cases "getitem (heap w2 ! ?e) ''Churn''")
      case (Inl err)
      then show ?thesis using run None getitem_error [OF Inl]
        by (simp add: perform_feature_engineering_def encoder_helper_unfold)
    next
      case (Inr target_feature)
      then show ?thesis using run None sel
        by (simp add: perform_feature_engineering_def encoder_helper_unfold)
    qed
  qed
qed

text \<open>Claim C10, witness: the example table with the response name \<open>Target\<close>.\<close>

theorem other_response_fails_witness:
  "Some ''Target'' \<noteq> Some ''Churn''
   \<and> ''Gender_Churn'' \<in> set (drop 14 keep_cols)
   \<and> ''Gender_Churn'' \<notin> set (columns (heap (world_of customers) ! 0))
   \<and> fst (perform_feature_engineering quiet_env (world_of customers) 0 (Some ''Target''))
       = Inl KeyError"
proof -
  have h1: "Some ''Target'' \<noteq> Some ''Churn''" by simp
  have h2: "''Gender_Churn'' \<in> set (drop 14 keep_cols)" by (simp add: keep_cols_def)
  have h3: "''Gender_Churn'' \<notin> set (columns (heap (world_of customers) ! 0))"
    by (simp add: world_of_def columns_def customers_def customers_raw_def)
  from other_response_fails [OF h1 h2 h3, of quiet_env] h1 h2 h3 show ?thesis by (intro conjI)
qed

end
